theory Spec2Isabelle
  imports Main "HOL-Library.Word" "HOL-Library.Multiset"
begin


section \<open>JavaScript strings\<close>

text \<open>
  The verifier of \<^verbatim>\<open>src/mailer.js\<close> (lines 382 to 850) works on JavaScript strings. A
  string is modelled as a \<^typ>\<open>string\<close>: a list of code units, each in the range 0 to 255
  (the Latin-1 part of UTF-16). \<open>length\<close> is then JavaScript's \<^verbatim>\<open>.length\<close> and
  \<open>@\<close> is string concatenation. Code units above 255 are outside the model.
\<close>

definition CRLF :: string where
  "CRLF = [CHR 0x0D, CHR 0x0A]"

definition in_range :: "char \<Rightarrow> char \<Rightarrow> char \<Rightarrow> bool" where
  \<comment> \<open>the character class \<^verbatim>\<open>[lo-hi]\<close>\<close>
  "in_range lo hi c = ((of_char lo :: nat) \<le> of_char c \<and> (of_char c :: nat) \<le> of_char hi)"

definition is_upper :: "char \<Rightarrow> bool" where
  \<comment> \<open>the code units that \<^verbatim>\<open>toLowerCase\<close> changes: A-Z, and the Latin-1 capitals
      0xC0-0xDE without the multiplication sign 0xD7\<close>
  "is_upper c = (in_range CHR ''A'' CHR ''Z'' c \<or>
                 (in_range CHR 0xC0 CHR 0xDE c \<and> c \<noteq> CHR 0xD7))"

definition toLowerCase_char :: "char \<Rightarrow> char" where
  \<comment> \<open>the lower-case letter is 32 above the capital; bit 5 is clear in every capital,
      so adding 32 is setting bit 5\<close>
  "toLowerCase_char c =
     (if is_upper c
      then (case c of Char b0 b1 b2 b3 b4 b5 b6 b7 \<Rightarrow> Char b0 b1 b2 b3 b4 True b6 b7)
      else c)"

definition toLowerCase :: "string \<Rightarrow> string" where
  "toLowerCase s = map toLowerCase_char s"

fun startsWith :: "string \<Rightarrow> string \<Rightarrow> bool" where
  "startsWith s [] = True"
| "startsWith [] (p # ps) = False"
| "startsWith (c # cs) (p # ps) = (c = p \<and> startsWith cs ps)"

fun includes_str :: "string \<Rightarrow> string \<Rightarrow> bool" where
  \<comment> \<open>\<^verbatim>\<open>s.includes(sub)\<close>: \<open>sub\<close> occurs in \<open>s\<close> at some position\<close>
  "includes_str [] sub = (sub = [])"
| "includes_str (c # cs) sub = (startsWith (c # cs) sub \<or> includes_str cs sub)"

fun split_char :: "char \<Rightarrow> string \<Rightarrow> string list" where
  \<comment> \<open>\<^verbatim>\<open>s.split(sep)\<close> for a separator of one character; the result is never empty\<close>
  "split_char sep [] = [] # []"
| "split_char sep (c # cs) =
     (if c = sep then [] # split_char sep cs
      else (case split_char sep cs of
              [] \<Rightarrow> [c] # []
            | l # ls \<Rightarrow> (c # l) # ls))"

fun split_crlf :: "string \<Rightarrow> string list" where
  \<comment> \<open>\<^verbatim>\<open>s.split('\r\n')\<close>: leftmost occurrences, not overlapping\<close>
  "split_crlf [] = [] # []"
| "split_crlf [c] = [c] # []"
| "split_crlf (c # d # cs) =
     (if c = CHR 0x0D \<and> d = CHR 0x0A then [] # split_crlf cs
      else (case split_crlf (d # cs) of
              [] \<Rightarrow> [c] # []
            | l # ls \<Rightarrow> (c # l) # ls))"

fun join_str :: "string \<Rightarrow> string list \<Rightarrow> string" where
  \<comment> \<open>\<^verbatim>\<open>xs.join(sep)\<close>\<close>
  "join_str sep [] = []"
| "join_str sep [x] = x"
| "join_str sep (x # y # ys) = x @ sep @ join_str sep (y # ys)"

definition hex_digit :: "nat \<Rightarrow> char" where
  "hex_digit n = ''0123456789abcdef'' ! (n mod 16)"

definition toString_hex :: "8 word list \<Rightarrow> string" where
  \<comment> \<open>\<^verbatim>\<open>buffer.toString('hex')\<close>: two lower-case hexadecimal digits per byte\<close>
  "toString_hex bs = concat (map (\<lambda>b. [hex_digit (unat b div 16), hex_digit (unat b mod 16)]) bs)"


section \<open>Regular expressions\<close>

text \<open>
  The regular expressions of the source use character classes, sequence, alternation,
  \<^verbatim>\<open>+\<close> and \<^verbatim>\<open>{n,}\<close>, and are anchored at the start (\<^verbatim>\<open>^\<close>) and sometimes at
  the end (\<^verbatim>\<open>$\<close>); none has a flag. They are embedded as terms of \<open>rx\<close> and run by
  derivatives: \<open>rx_test_full r s\<close> is \<^verbatim>\<open>/^r$/.test(s)\<close> and \<open>rx_test_start r s\<close> is
  \<^verbatim>\<open>/^r/.test(s)\<close>.
\<close>

datatype rx =
    Never
  | Empty
  | Class "char \<Rightarrow> bool"
  | Alt rx rx
  | Seq rx rx
  | Star rx

fun nullable :: "rx \<Rightarrow> bool" where
  "nullable Never = False"
| "nullable Empty = True"
| "nullable (Class P) = False"
| "nullable (Alt r s) = (nullable r \<or> nullable s)"
| "nullable (Seq r s) = (nullable r \<and> nullable s)"
| "nullable (Star r) = True"

fun deriv :: "char \<Rightarrow> rx \<Rightarrow> rx" where
  "deriv c Never = Never"
| "deriv c Empty = Never"
| "deriv c (Class P) = (if P c then Empty else Never)"
| "deriv c (Alt r s) = Alt (deriv c r) (deriv c s)"
| "deriv c (Seq r s) =
     (if nullable r then Alt (Seq (deriv c r) s) (deriv c s) else Seq (deriv c r) s)"
| "deriv c (Star r) = Seq (deriv c r) (Star r)"

fun rx_test_full :: "rx \<Rightarrow> string \<Rightarrow> bool" where
  "rx_test_full r [] = nullable r"
| "rx_test_full r (c # cs) = rx_test_full (deriv c r) cs"

fun rx_test_start :: "rx \<Rightarrow> string \<Rightarrow> bool" where
  "rx_test_start r [] = nullable r"
| "rx_test_start r (c # cs) = (nullable r \<or> rx_test_start (deriv c r) cs)"

definition Plus :: "rx \<Rightarrow> rx" where
  \<comment> \<open>\<^verbatim>\<open>r+\<close>\<close>
  "Plus r = Seq r (Star r)"

fun AtLeast :: "nat \<Rightarrow> rx \<Rightarrow> rx" where
  \<comment> \<open>\<^verbatim>\<open>r{n,}\<close>\<close>
  "AtLeast 0 r = Star r"
| "AtLeast (Suc n) r = Seq r (AtLeast n r)"

fun Lit :: "string \<Rightarrow> rx" where
  \<comment> \<open>a literal string\<close>
  "Lit [] = Empty"
| "Lit (c # cs) = Seq (Class (\<lambda>x. x = c)) (Lit cs)"

definition is_space :: "char \<Rightarrow> bool" where
  \<comment> \<open>\<^verbatim>\<open>\s\<close> below code unit 256: tab, line feed, vertical tab, form feed, carriage
      return, space, no-break space\<close>
  "is_space c = (c \<in> set [CHR 0x09, CHR 0x0A, CHR 0x0B, CHR 0x0C, CHR 0x0D, CHR 0x20, CHR 0xA0])"

definition is_digit :: "char \<Rightarrow> bool" where
  \<comment> \<open>\<^verbatim>\<open>\d\<close>\<close>
  "is_digit c = in_range CHR ''0'' CHR ''9'' c"

definition is_lower :: "char \<Rightarrow> bool" where
  \<comment> \<open>\<^verbatim>\<open>[a-z]\<close>\<close>
  "is_lower c = in_range CHR ''a'' CHR ''z'' c"

definition is_lower_alnum :: "char \<Rightarrow> bool" where
  \<comment> \<open>\<^verbatim>\<open>[a-z0-9]\<close>\<close>
  "is_lower_alnum c = (is_lower c \<or> is_digit c)"

definition not_space_at :: "char \<Rightarrow> bool" where
  \<comment> \<open>\<^verbatim>\<open>[^\s@]\<close>\<close>
  "not_space_at c = (\<not> is_space c \<and> c \<noteq> CHR ''@'')"


section \<open>The SMTP probe\<close>

text \<open>
  \<^verbatim>\<open>testSMTPConnection\<close> (lines 643 to 772) opens a socket to port 25, registers three
  event handlers and a 15-second timer, and returns a promise. The promise takes the value
  of the first \<^verbatim>\<open>resolve\<close> call; later calls have no effect. A dialogue is modelled by the
  list of socket events that arrive before the timer would fire; when the list ends and
  no handler has resolved the promise, the timer does (lines 657 to 664).
\<close>

record probe_outcome =
  connected :: bool
  accepted :: bool
  probe_reason :: string
  code :: "string option"

datatype socket_event =
    OnData string
  | OnError string
  | OnTimeout

record probe_state =
  response :: string
  step :: nat
  lastResponseCode :: string
  written :: "string list"
  resolved :: "probe_outcome option"

definition commands :: "string \<Rightarrow> string list" where
  "commands address =
     [''HELO verify.example.com'' @ CRLF,
      ''MAIL FROM:<verify@example.com>'' @ CRLF,
      ''RCPT TO:<'' @ address @ ''>'' @ CRLF,
      ''QUIT'' @ CRLF]"

definition rx_code :: rx where
  \<comment> \<open>\<^verbatim>\<open>/^(\d{3})/\<close>\<close>
  "rx_code = Seq (Class is_digit) (Seq (Class is_digit) (Class is_digit))"

definition rx_positive :: rx where
  \<comment> \<open>\<^verbatim>\<open>/^[23]\d{2}/\<close>\<close>
  "rx_positive = Seq (Class (\<lambda>c. c \<in> set ''23'')) (Seq (Class is_digit) (Class is_digit))"

definition rx_negative :: rx where
  \<comment> \<open>\<^verbatim>\<open>/^[45]\d{2}/\<close>\<close>
  "rx_negative = Seq (Class (\<lambda>c. c \<in> set ''45'')) (Seq (Class is_digit) (Class is_digit))"

definition rx_250 :: rx where
  \<comment> \<open>\<^verbatim>\<open>/^250/\<close>\<close>
  "rx_250 = Lit ''250''"

definition rx_no_user :: rx where
  \<comment> \<open>\<^verbatim>\<open>/^550|^551|^553|^554/\<close>\<close>
  "rx_no_user = Alt (Lit ''550'') (Alt (Lit ''551'') (Alt (Lit ''553'') (Lit ''554'')))"

definition rx_greylist :: rx where
  \<comment> \<open>\<^verbatim>\<open>/^450|^451|^452/\<close>\<close>
  "rx_greylist = Alt (Lit ''450'') (Alt (Lit ''451'') (Lit ''452''))"

definition lastLine_of :: "string \<Rightarrow> string" where
  \<comment> \<open>lines 668 and 669: \<^verbatim>\<open>lines[lines.length - 2] || ''\<close>; the index is out of range for
      fewer than two lines, and the element is then \<^verbatim>\<open>undefined\<close>\<close>
  "lastLine_of resp =
     (let lines = split_crlf resp
      in if length lines < 2 then [] else lines ! (length lines - 2))"

definition classify :: "string \<Rightarrow> string \<Rightarrow> probe_outcome" where
  \<comment> \<open>lines 685 to 735: the value the promise is resolved with when \<open>step\<close> is 2\<close>
  "classify lastLine lastCode =
     (if rx_test_start rx_250 lastLine then
        (let lowerLine = toLowerCase lastLine
         in if includes_str lowerLine ''user unknown'' \<or>
               includes_str lowerLine ''does not exist'' \<or>
               includes_str lowerLine ''no such user'' \<or>
               includes_str lowerLine ''invalid recipient'' \<or>
               includes_str lowerLine ''recipient rejected''
            then \<lparr>connected = True, accepted = False,
                  probe_reason = ''User does not exist'', code = Some lastCode\<rparr>
            else \<lparr>connected = True, accepted = True,
                  probe_reason = ''Email accepted'', code = Some lastCode\<rparr>)
      else if rx_test_start rx_no_user lastLine then
        \<lparr>connected = True, accepted = False,
         probe_reason = ''User does not exist'', code = Some lastCode\<rparr>
      else if rx_test_start rx_greylist lastLine then
        \<lparr>connected = True, accepted = False,
         probe_reason = ''Temporary error - greylisting'', code = Some lastCode\<rparr>
      else if rx_test_start rx_negative lastLine then
        \<lparr>connected = True, accepted = False,
         probe_reason = ''Email rejected'', code = Some lastCode\<rparr>
      else
        \<lparr>connected = True, accepted = False,
         probe_reason = ''Unknown response'', code = Some lastCode\<rparr>)"

definition on_data :: "string \<Rightarrow> probe_state \<Rightarrow> string \<Rightarrow> probe_state" where
  \<comment> \<open>lines 666 to 751: the handler of the socket's \<^verbatim>\<open>data\<close> event\<close>
  "on_data address st0 data =
     (let st1 = st0\<lparr>response := response st0 @ data\<rparr>;
          lastLine = lastLine_of (response st1);
          st2 = (if rx_test_start rx_code lastLine
                 then st1\<lparr>lastResponseCode := take 3 lastLine\<rparr> else st1)
      in if rx_test_start rx_positive lastLine then
           (if step st2 < 3 then
              (let st3 = st2\<lparr>written := written st2 @ [commands address ! step st2]\<rparr>
               in if step st3 = 2 then
                    st3\<lparr>written := written st3 @ [commands address ! 3],
                        resolved := Some (classify lastLine (lastResponseCode st3))\<rparr>
                  else st3\<lparr>step := step st3 + 1\<rparr>)
            else st2)
         else if rx_test_start rx_negative lastLine then
           st2\<lparr>resolved := Some \<lparr>connected = False, accepted = False,
                                  probe_reason = ''SMTP error: '' @ lastLine,
                                  code = Some (lastResponseCode st2)\<rparr>\<rparr>
         else st2)"

fun on_event :: "string \<Rightarrow> probe_state \<Rightarrow> socket_event \<Rightarrow> probe_state" where
  "on_event address st (OnData data) = on_data address st data"
| "on_event address st (OnError message) =
     st\<lparr>resolved := Some \<lparr>connected = False, accepted = False,
                           probe_reason = message, code = None\<rparr>\<rparr>"
| "on_event address st OnTimeout =
     st\<lparr>resolved := Some \<lparr>connected = False, accepted = False,
                           probe_reason = ''Socket timeout'', code = None\<rparr>\<rparr>"

fun run_events :: "string \<Rightarrow> probe_state \<Rightarrow> socket_event list \<Rightarrow> probe_state" where
  \<comment> \<open>the events are handled in order until the promise is resolved\<close>
  "run_events address st [] = st"
| "run_events address st (e # es) =
     (case resolved st of
        Some outcome \<Rightarrow> st
      | None \<Rightarrow> run_events address (on_event address st e) es)"

definition initial_state :: probe_state where
  "initial_state = \<lparr>response = [], step = 0, lastResponseCode = [], written = [], resolved = None\<rparr>"

definition smtp_dialogue :: "string \<Rightarrow> socket_event list \<Rightarrow> probe_state" where
  "smtp_dialogue address events = run_events address initial_state events"

definition probe_result :: "string \<Rightarrow> socket_event list \<Rightarrow> probe_outcome" where
  \<comment> \<open>the value of the promise: the first resolution, by a handler or else by the timer\<close>
  "probe_result address events =
     (case resolved (smtp_dialogue address events) of
        Some outcome \<Rightarrow> outcome
      | None \<Rightarrow> \<lparr>connected = False, accepted = False,
                  probe_reason = ''Connection timeout'', code = None\<rparr>)"


section \<open>The network\<close>

text \<open>
  \<^verbatim>\<open>verifyEmail\<close> reads the outside world in three places: the MX lookup, the random bytes
  of the synthetic addresses, and the SMTP connections. They are the fields of a record
  so that a run is a function of the address, the options and the network.
  \<^item> \<open>resolveMx net domain\<close> is \<open>None\<close> when the lookup is rejected (line 445 maps every
    rejection to \<^verbatim>\<open>null\<close>) and the list of records otherwise;
  \<^item> \<open>randomBytes net i\<close> is what the \<open>i\<close>-th call of \<^verbatim>\<open>crypto.randomBytes(16)\<close> returns;
  \<^item> \<open>session net n mxHost address\<close> is the \<open>n\<close>-th connection of the run: the list of
    its socket events, or \<open>Inl message\<close> when \<^verbatim>\<open>net.createConnection\<close> throws, which rejects
    the promise of \<^verbatim>\<open>testSMTPConnection\<close>.
  Every operation a run performs is recorded, in order, as a \<open>net_op\<close>.
\<close>

record mx_record =
  priority :: nat
  exchange :: string

record network =
  resolveMx :: "string \<Rightarrow> mx_record list option"
  randomBytes :: "nat \<Rightarrow> 8 word list"
  session :: "nat \<Rightarrow> string \<Rightarrow> string \<Rightarrow> string + socket_event list"

datatype net_op =
    DnsQuery string
  | SmtpConnect string string
  | RandomBytes nat
  | Sleep nat

definition testSMTPConnection ::
    "network \<Rightarrow> nat \<Rightarrow> string \<Rightarrow> string \<Rightarrow> string + probe_outcome" where
  "testSMTPConnection net n address mxHost =
     (case session net n mxHost address of
        Inl message \<Rightarrow> Inl message
      | Inr events \<Rightarrow> Inr (probe_result address events))"

definition generateRandomEmail :: "network \<Rightarrow> nat \<Rightarrow> string \<Rightarrow> string" where
  \<comment> \<open>lines 777 to 780\<close>
  "generateRandomEmail net i domain = toString_hex (randomBytes net i) @ ''@'' @ domain"


section \<open>The filters\<close>

definition rx_format :: rx where
  \<comment> \<open>\<^verbatim>\<open>/^[^\s@]+@[^\s@]+\.[^\s@]+$/\<close>\<close>
  "rx_format =
     Seq (Plus (Class not_space_at))
       (Seq (Lit ''@'')
         (Seq (Plus (Class not_space_at))
           (Seq (Lit ''.'') (Plus (Class not_space_at)))))"

definition isValidFormat :: "string \<Rightarrow> bool" where
  "isValidFormat address = rx_test_full rx_format address"

definition roleAccounts :: "string list" where
  "roleAccounts =
     [''info'', ''admin'', ''support'', ''sales'', ''contact'', ''help'', ''service'',
      ''office'', ''hello'', ''team'', ''mail'', ''webmaster'', ''postmaster'', ''noreply'',
      ''no-reply'', ''jobs'', ''careers'', ''hr'', ''marketing'', ''billing'', ''accounts'']"

definition isRoleAccount :: "string \<Rightarrow> bool" where
  "isRoleAccount localPart = (toLowerCase localPart \<in> set roleAccounts)"

definition disposableDomains :: "string list" where
  "disposableDomains =
     [''tempmail.com'', ''guerrillamail.com'', ''10minutemail.com'',
      ''mailinator.com'', ''throwaway.email'', ''temp-mail.org'',
      ''maildrop.cc'', ''sharklasers.com'', ''yopmail.com'',
      ''trashmail.com'', ''fakeinbox.com'', ''getnada.com'']"

definition isDisposableDomain :: "string \<Rightarrow> bool" where
  "isDisposableDomain domain = (domain \<in> set disposableDomains)"

definition freeProviders :: "string list" where
  "freeProviders =
     [''gmail.com'', ''yahoo.com'', ''hotmail.com'', ''outlook.com'',
      ''aol.com'', ''icloud.com'', ''mail.com'', ''protonmail.com'',
      ''zoho.com'', ''yandex.com'', ''gmx.com'', ''live.com'']"

definition isFreeEmailProvider :: "string \<Rightarrow> bool" where
  "isFreeEmailProvider domain = (domain \<in> set freeProviders)"

definition detectMailProvider :: "string list \<Rightarrow> string" where
  \<comment> \<open>lines 566 to 588\<close>
  "detectMailProvider mxRecords =
     (let mxString = toLowerCase (join_str '' '' mxRecords)
      in if includes_str mxString ''google'' \<or> includes_str mxString ''googlemail''
           then ''google_workspace''
         else if includes_str mxString ''outlook'' \<or> includes_str mxString ''microsoft'' \<or>
                 includes_str mxString ''office365''
           then ''microsoft365''
         else if includes_str mxString ''zoho'' then ''zoho''
         else if includes_str mxString ''protonmail'' then ''protonmail''
         else if includes_str mxString ''gmail'' \<or> includes_str mxString ''yahoo'' \<or>
                 includes_str mxString ''hotmail''
           then ''consumer''
         else ''corporate'')"


section \<open>The result and the scorer\<close>

record verification_result =
  email :: string
  status :: string
  reason :: string
  is_catch_all :: bool
  is_disposable :: bool
  is_free_email :: bool
  is_role_account :: bool
  mx_records :: "string list"
  smtp_check :: bool
  dns_check :: bool
  confidence_score :: int
  risk_level :: string

record options =
  debug :: bool
  skipCatchAll :: bool

definition rx_random_token :: rx where
  \<comment> \<open>\<^verbatim>\<open>/^[a-z0-9]{20,}$/\<close>\<close>
  "rx_random_token = AtLeast 20 (Class is_lower_alnum)"

definition rx_first_last :: rx where
  \<comment> \<open>\<^verbatim>\<open>/^[a-z]+\.[a-z]+$/\<close>\<close>
  "rx_first_last = Seq (Plus (Class is_lower)) (Seq (Lit ''.'') (Plus (Class is_lower)))"

definition rx_word :: rx where
  \<comment> \<open>\<^verbatim>\<open>/^[a-z]+$/\<close>\<close>
  "rx_word = Plus (Class is_lower)"

definition localPart_of :: "string \<Rightarrow> string" where
  \<comment> \<open>\<^verbatim>\<open>email.split('@')[0]\<close>; the split of a string is never empty\<close>
  "localPart_of address = (case split_char CHR ''@'' address of [] \<Rightarrow> [] | l # ls \<Rightarrow> l)"

definition calculateHeuristicConfidence ::
    "string \<Rightarrow> verification_result \<Rightarrow> string \<Rightarrow> int" where
  \<comment> \<open>lines 593 to 638\<close>
  "calculateHeuristicConfidence address result mailProvider =
     (let score0 = 0;
          score1 = (if smtp_check result then score0 + 40 else score0);
          score2 = (if dns_check result then score1 + 20 else score1);
          score3 = (if mailProvider = ''google_workspace'' \<or> mailProvider = ''microsoft365''
                    then score2 + 20
                    else if mailProvider = ''corporate'' then score2 + 15 else score2);
          localPart = localPart_of address;
          score4 = (if is_role_account result then score3 - 10 else score3);
          score5 = (if length localPart < 3 then score4 - 10 else score4);
          score6 = (if rx_test_full rx_random_token localPart then score5 - 15 else score5);
          score7 = (if rx_test_full rx_first_last localPart \<or> rx_test_full rx_word localPart
                    then score6 + 10 else score6);
          score8 = (if is_free_email result then score7 - 5 else score7)
      in max 0 (min 100 score8))"


section \<open>The verification\<close>

text \<open>
  \<^verbatim>\<open>verifyEmail\<close> (lines 397 to 561) mutates one result object and returns it from several
  places. Its body is one \<^verbatim>\<open>try\<close> block. The model of the block, \<open>verifyEmail_try\<close>,
  passes the object along and ends in one of two ways: \<open>returns\<close>, for a \<^verbatim>\<open>return result\<close>,
  or \<open>throws\<close>, for an exception raised inside the block, with the object as it is at that
  moment. Both carry the list of network operations performed so far. \<open>verifyEmail_run\<close>
  adds the \<^verbatim>\<open>catch\<close> handler. \<^verbatim>\<open>console.log\<close> under the \<open>debug\<close> option is not modelled.
\<close>

type_synonym run = "string option \<times> verification_result \<times> net_op list"

definition returns :: "verification_result \<Rightarrow> net_op list \<Rightarrow> run" where
  "returns result ops = (None, result, ops)"

definition throws :: "string \<Rightarrow> verification_result \<Rightarrow> net_op list \<Rightarrow> run" where
  "throws message result ops = (Some message, result, ops)"

definition numTests :: nat where
  "numTests = 2"

function random_probes ::
    "network \<Rightarrow> string \<Rightarrow> string \<Rightarrow> nat \<Rightarrow> probe_outcome list \<Rightarrow> net_op list
       \<Rightarrow> (string + probe_outcome list) \<times> net_op list" where
  \<comment> \<open>lines 522 to 532: the loop over \<open>i\<close>, with the list \<open>randomTests\<close> built so far;
      \<open>Inl message\<close> when a probe throws\<close>
  "random_probes net domainLower mxHost i randomTests ops =
     (if i < numTests then
        (let randomEmail = generateRandomEmail net i domainLower;
             ops1 = ops @ [RandomBytes 16, SmtpConnect mxHost randomEmail]
         in case testSMTPConnection net (Suc i) randomEmail mxHost of
              Inl message \<Rightarrow> (Inl message, ops1)
            | Inr randomCheck \<Rightarrow>
                random_probes net domainLower mxHost (i + 1) (randomTests @ [randomCheck])
                  (if i < numTests - 1 then ops1 @ [Sleep 1000] else ops1))
      else (Inr randomTests, ops))"
  by pat_completeness auto
termination
  by (relation "measure (\<lambda>(net, domainLower, mxHost, i, randomTests, ops). numTests - i)") auto

declare random_probes.simps [simp del]

definition catch_all_test ::
    "network \<Rightarrow> verification_result \<Rightarrow> string \<Rightarrow> string \<Rightarrow> net_op list \<Rightarrow> run" where
  \<comment> \<open>lines 516 to 552\<close>
  "catch_all_test net result domainLower mxHost ops =
     (case random_probes net domainLower mxHost 0 [] ops of
        (Inl message, ops1) \<Rightarrow> throws message result ops1
      | (Inr randomTests, ops1) \<Rightarrow>
          (let acceptedCount = length (filter accepted randomTests)
           in if acceptedCount = numTests then
                returns (result\<lparr>is_catch_all := True, status := ''catch_all'',
                                reason := ''Domain accepts all emails (catch-all)'',
                                confidence_score := 60, risk_level := ''medium''\<rparr>) ops1
              else
                returns (result\<lparr>status := ''valid'', reason := ''Email verified successfully'',
                                confidence_score := 90, risk_level := ''low''\<rparr>) ops1))"

definition heuristic_verdict ::
    "string \<Rightarrow> verification_result \<Rightarrow> string \<Rightarrow> verification_result" where
  \<comment> \<open>lines 496 to 513\<close>
  "heuristic_verdict address result mailProvider =
     (let confidence = calculateHeuristicConfidence address result mailProvider;
          result1 = result\<lparr>confidence_score := confidence\<rparr>
      in if confidence \<ge> 75 then
           result1\<lparr>status := ''valid'', reason := ''Email accepted by mail server'',
                   risk_level := ''low''\<rparr>
         else if confidence \<ge> 50 then
           result1\<lparr>status := ''valid'', reason := ''Likely valid (corporate mail server)'',
                   risk_level := ''medium''\<rparr>
         else
           result1\<lparr>status := ''unknown'', reason := ''Cannot verify definitively'',
                   risk_level := ''medium''\<rparr>)"

definition smtp_stage ::
    "network \<Rightarrow> string \<Rightarrow> bool \<Rightarrow> verification_result \<Rightarrow> string \<Rightarrow> mx_record list
       \<Rightarrow> net_op list \<Rightarrow> run" where
  \<comment> \<open>lines 455 to 552, entered with a list \<open>mxRecords\<close> that is not empty, so that
      \<^verbatim>\<open>result.mx_records[0]\<close> is its head\<close>
  "smtp_stage net address skip result0 domainLower mxRecords ops0 =
     (let result1 = result0\<lparr>dns_check := True,
                            mx_records := map exchange (sort_key priority mxRecords)\<rparr>;
          mailProvider = detectMailProvider (mx_records result1);
          mxHost = hd (mx_records result1);
          ops1 = ops0 @ [SmtpConnect mxHost address]
      in case testSMTPConnection net 0 address mxHost of
           Inl message \<Rightarrow> throws message result1 ops1
         | Inr realEmailCheck \<Rightarrow>
             if \<not> connected realEmailCheck then
               returns (result1\<lparr>status := ''unknown'',
                                reason := ''Could not connect to mail server'',
                                confidence_score := 50, risk_level := ''medium''\<rparr>) ops1
             else
               (let result2 = result1\<lparr>smtp_check := True\<rparr>
                in if \<not> accepted realEmailCheck then
                     returns (result2\<lparr>status := ''invalid'',
                                      reason := (if probe_reason realEmailCheck = []
                                                 then ''Email does not exist''
                                                 else probe_reason realEmailCheck),
                                      confidence_score := 10, risk_level := ''high''\<rparr>) ops1
                   else if skip \<or> mailProvider = ''google_workspace'' \<or>
                           mailProvider = ''microsoft365'' \<or> mailProvider = ''corporate''
                   then returns (heuristic_verdict address result2 mailProvider) ops1
                   else catch_all_test net result2 domainLower mxHost ops1))"

definition no_mx :: "verification_result \<Rightarrow> verification_result" where
  \<comment> \<open>lines 447 to 451\<close>
  "no_mx result =
     result\<lparr>status := ''invalid'', reason := ''No MX records found'', dns_check := False,
            confidence_score := 0, risk_level := ''high''\<rparr>"

definition initial_result :: "string \<Rightarrow> verification_result" where
  \<comment> \<open>lines 401 to 414\<close>
  "initial_result address =
     \<lparr>email = address, status = ''unknown'', reason = [],
      is_catch_all = False, is_disposable = False, is_free_email = False,
      is_role_account = False, mx_records = [], smtp_check = False,
      dns_check = False, confidence_score = 0, risk_level = ''unknown''\<rparr>"

definition verifyEmail_try :: "network \<Rightarrow> string \<Rightarrow> options \<Rightarrow> run" where
  \<comment> \<open>lines 416 to 553\<close>
  "verifyEmail_try net address opts =
     (let result0 = initial_result address
      in if \<not> isValidFormat address then
           returns (result0\<lparr>status := ''invalid'', reason := ''Invalid email format'',
                            confidence_score := 0\<rparr>) []
         else
           (case split_char CHR ''@'' address of
              localPart # domain # rest \<Rightarrow>
                (let domainLower = toLowerCase domain;
                     result1 = result0\<lparr>is_role_account := isRoleAccount localPart\<rparr>;
                     result2 = result1\<lparr>is_disposable := isDisposableDomain domainLower\<rparr>
                 in if is_disposable result2 then
                      returns (result2\<lparr>status := ''invalid'',
                                       reason := ''Disposable email address'',
                                       confidence_score := 0, risk_level := ''high''\<rparr>) []
                    else
                      (let result3 = result2\<lparr>is_free_email := isFreeEmailProvider domainLower\<rparr>;
                           ops = [DnsQuery domainLower]
                       in case resolveMx net domainLower of
                            None \<Rightarrow> returns (no_mx result3) ops
                          | Some mxRecords \<Rightarrow>
                              if length mxRecords = 0 then returns (no_mx result3) ops
                              else smtp_stage net address (skipCatchAll opts) result3
                                     domainLower mxRecords ops))
            | _ \<Rightarrow>
                \<comment> \<open>\<open>domain\<close> is \<^verbatim>\<open>undefined\<close> and line 426 throws a TypeError\<close>
                throws (''Cannot read properties of undefined (reading '' @ [CHR 0x27] @
                        ''toLowerCase'' @ [CHR 0x27] @ '')'') result0 []))"

definition catch_error :: "verification_result \<Rightarrow> string \<Rightarrow> verification_result" where
  \<comment> \<open>lines 554 to 560\<close>
  "catch_error result message =
     result\<lparr>status := ''unknown'', reason := ''Verification error: '' @ message,
            confidence_score := 50, risk_level := ''medium''\<rparr>"

definition verifyEmail_run ::
    "network \<Rightarrow> string \<Rightarrow> options \<Rightarrow> verification_result \<times> net_op list" where
  "verifyEmail_run net address opts =
     (case verifyEmail_try net address opts of
        (None, result, ops) \<Rightarrow> (result, ops)
      | (Some message, result, ops) \<Rightarrow> (catch_error result message, ops))"

definition verifyEmail :: "network \<Rightarrow> string \<Rightarrow> options \<Rightarrow> verification_result" where
  "verifyEmail net address opts = fst (verifyEmail_run net address opts)"

definition network_ops :: "network \<Rightarrow> string \<Rightarrow> options \<Rightarrow> net_op list" where
  "network_ops net address opts = snd (verifyEmail_run net address opts)"

definition thrown :: "network \<Rightarrow> string \<Rightarrow> options \<Rightarrow> string option" where
  \<comment> \<open>the message of the exception raised inside the \<^verbatim>\<open>try\<close> block, if any\<close>
  "thrown net address opts = fst (verifyEmail_try net address opts)"




section \<open>Auxiliary definitions\<close>

subsection \<open>The language of a regular expression\<close>

text \<open>
  The semantics against which the derivative matcher is proved correct: \<open>rx_test_full r s\<close>
  holds exactly when \<open>s\<close> is in \<open>lang r\<close>.
\<close>

definition conc :: "string set \<Rightarrow> string set \<Rightarrow> string set" where
  "conc A B = {u @ v | u v. u \<in> A \<and> v \<in> B}"

inductive_set star :: "string set \<Rightarrow> string set" for A :: "string set" where
  star_nil: "[] \<in> star A"
| star_app: "u \<in> A \<Longrightarrow> v \<in> star A \<Longrightarrow> u @ v \<in> star A"

fun lang :: "rx \<Rightarrow> string set" where
  "lang Never = {}"
| "lang Empty = {[]}"
| "lang (Class P) = {[c] | c. P c}"
| "lang (Alt r s) = lang r \<union> lang s"
| "lang (Seq r s) = conc (lang r) (lang s)"
| "lang (Star r) = star (lang r)"


subsection \<open>The scorer in the words of the specification\<close>

text \<open>
  Section 4.6 of the specification describes the score as a clamped sum of eight
  contributions, and two shapes of local-part: a random token (20 or more lower-case
  alphanumeric characters with no separators) and a human name (\<^verbatim>\<open>firstname.lastname\<close> or
  a single lower-case word).
\<close>

definition is_lowercase_word :: "string \<Rightarrow> bool" where
  "is_lowercase_word w = (w \<noteq> [] \<and> list_all is_lower w)"

definition looks_like_random_token :: "string \<Rightarrow> bool" where
  "looks_like_random_token localPart = (20 \<le> length localPart \<and> list_all is_lower_alnum localPart)"

definition looks_like_human_name :: "string \<Rightarrow> bool" where
  "looks_like_human_name localPart =
     (list_ex (\<lambda>i. localPart ! i = CHR ''.'' \<and> is_lowercase_word (take i localPart) \<and>
                    is_lowercase_word (drop (Suc i) localPart)) [0..<length localPart] \<or>
      is_lowercase_word localPart)"

definition clamp :: "int \<Rightarrow> int \<Rightarrow> int \<Rightarrow> int" where
  "clamp lo hi x = (if x < lo then lo else if hi < x then hi else x)"

definition spec_confidence :: "bool \<Rightarrow> bool \<Rightarrow> string \<Rightarrow> bool \<Rightarrow> string \<Rightarrow> bool \<Rightarrow> int" where
  "spec_confidence smtp_reached dns_succeeded provider role_account localPart free_domain =
     clamp 0 100
       ((if smtp_reached then 40 else 0) +
        (if dns_succeeded then 20 else 0) +
        (if provider = ''google_workspace'' \<or> provider = ''microsoft365'' then 20
         else if provider = ''corporate'' then 15 else 0) +
        (if role_account then - 10 else 0) +
        (if length localPart < 3 then - 10 else 0) +
        (if looks_like_random_token localPart then - 15 else 0) +
        (if looks_like_human_name localPart then 10 else 0) +
        (if free_domain then - 5 else 0))"


subsection \<open>Intermediate results and invariants\<close>

text \<open>
  \<open>filtered_result\<close> is the result object when the filters have passed (line 442), and
  \<open>probed_result\<close> the object when the probe of the address has connected (line 479).
\<close>

definition filtered_result :: "string \<Rightarrow> string \<Rightarrow> string \<Rightarrow> verification_result" where
  "filtered_result address localPart domain =
     \<lparr>email = address, status = ''unknown'', reason = [],
      is_catch_all = False, is_disposable = False,
      is_free_email = isFreeEmailProvider (toLowerCase domain),
      is_role_account = isRoleAccount localPart, mx_records = [], smtp_check = False,
      dns_check = False, confidence_score = 0, risk_level = ''unknown''\<rparr>"

definition probed_result :: "string \<Rightarrow> string \<Rightarrow> string \<Rightarrow> string list \<Rightarrow> verification_result" where
  "probed_result address localPart domain hosts =
     (filtered_result address localPart domain)
       \<lparr>dns_check := True, mx_records := hosts, smtp_check := True\<rparr>"

definition result_inv :: "verification_result \<Rightarrow> bool" where
  "result_inv r = (0 \<le> confidence_score r \<and> confidence_score r \<le> 100 \<and>
                   (is_catch_all r \<longleftrightarrow> status r = ''catch_all''))"

definition run_inv :: "run \<Rightarrow> bool" where
  "run_inv t = (case t of (None, r, ops) \<Rightarrow> result_inv r | (Some m, r, ops) \<Rightarrow> \<not> is_catch_all r)"


definition outcome_sound :: "probe_outcome \<Rightarrow> bool" where
  "outcome_sound outcome = (accepted outcome \<longrightarrow> connected outcome)"

definition state_sound :: "probe_state \<Rightarrow> bool" where
  "state_sound st = (case resolved st of None \<Rightarrow> True | Some outcome \<Rightarrow> outcome_sound outcome)"

definition positive_code :: "probe_outcome \<Rightarrow> bool" where
  "positive_code outcome =
     (connected outcome \<longrightarrow> (\<exists>c cs. code outcome = Some (c # cs) \<and> c \<in> set ''23''))"

text \<open>
  \<open>connections ops\<close> lists the SMTP connections of a run in order, so that its \<open>k\<close>-th
  entry is the connection numbered \<open>k\<close> in \<open>session\<close>. \<open>faults_reach_catch\<close> says of the
  \<^verbatim>\<open>try\<close> block that a connection which throws ends the block with that exception, and
  \<open>raised_by_connection\<close> that the block raises no other exception.
\<close>

fun connections :: "net_op list \<Rightarrow> (string \<times> string) list" where
  "connections [] = []"
| "connections (SmtpConnect mxHost address # ops) = (mxHost, address) # connections ops"
| "connections (other # ops) = connections ops"


definition raised_by_connection :: "network \<Rightarrow> run \<Rightarrow> bool" where
  "raised_by_connection net t =
     (case t of
        (raised, result, ops) \<Rightarrow>
          (\<forall>message. raised = Some message \<longrightarrow>
             (\<exists>k mxHost address.
                k < length (connections ops) \<and>
                connections ops ! k = (mxHost, address) \<and>
                session net k mxHost address = Inl message)))"

subsection \<open>Concrete dialogues and networks\<close>

text \<open>
  \<open>dialogue_ok\<close> is a server that answers the greeting, \<^verbatim>\<open>HELO\<close> and \<^verbatim>\<open>MAIL FROM\<close> with
  2xx replies, one reply per \<^verbatim>\<open>data\<close> event. \<open>example_network mx sessions\<close> knows the MX
  records \<open>mx\<close> of \<^verbatim>\<open>example.com\<close> only, and its \<open>n\<close>-th connection is \<open>sessions n\<close>.
\<close>

definition dialogue_ok :: "socket_event list" where
  "dialogue_ok =
     [OnData (''220 mx.example.com ESMTP'' @ CRLF),
      OnData (''250 mx.example.com'' @ CRLF),
      OnData (''250 2.1.0 Ok'' @ CRLF)]"

definition rcpt_ok :: socket_event where
  "rcpt_ok = OnData (''250 2.1.5 Ok'' @ CRLF)"

definition rcpt_no_such_user :: socket_event where
  "rcpt_no_such_user = OnData (''550 No such user'' @ CRLF)"

definition email_accepted :: probe_outcome where
  "email_accepted =
     \<lparr>connected = True, accepted = True, probe_reason = ''Email accepted'', code = Some ''250''\<rparr>"

definition connection_refused :: probe_outcome where
  "connection_refused =
     \<lparr>connected = False, accepted = False, probe_reason = ''connect ECONNREFUSED'', code = None\<rparr>"

definition example_network ::
    "mx_record list option \<Rightarrow> (nat \<Rightarrow> string + socket_event list) \<Rightarrow> network" where
  "example_network mx sessions =
     \<lparr>resolveMx = (\<lambda>domain. if domain = ''example.com'' then mx else None),
      randomBytes = (\<lambda>i. replicate 16 (of_nat i)),
      session = (\<lambda>n mxHost address. sessions n)\<rparr>"

definition consumer_mx :: "mx_record list" where
  "consumer_mx =
     [\<lparr>priority = 20, exchange = ''mx2.yahoo.example''\<rparr>,
      \<lparr>priority = 10, exchange = ''mx1.yahoo.example''\<rparr>]"

definition consumer_hosts :: "string list" where
  "consumer_hosts = [''mx1.yahoo.example'', ''mx2.yahoo.example'']"

definition corporate_mx :: "mx_record list" where
  "corporate_mx = [\<lparr>priority = 10, exchange = ''mx.example.com''\<rparr>]"

definition google_mx :: "mx_record list" where
  "google_mx = [\<lparr>priority = 1, exchange = ''aspmx.l.google.com''\<rparr>]"

definition net_catch_all :: network where
  "net_catch_all = example_network (Some consumer_mx) (\<lambda>n. Inr (dialogue_ok @ [rcpt_ok]))"

definition net_no_such_user :: network where
  "net_no_such_user =
     example_network (Some corporate_mx) (\<lambda>n. Inr (dialogue_ok @ [rcpt_no_such_user]))"

definition net_refused :: network where
  "net_refused =
     example_network (Some consumer_mx)
       (\<lambda>n. if n = 0 then Inr (dialogue_ok @ [rcpt_ok]) else Inr [OnError ''connect ECONNREFUSED''])"

definition net_corporate :: network where
  "net_corporate = example_network (Some corporate_mx) (\<lambda>n. Inr (dialogue_ok @ [rcpt_ok]))"

definition net_google :: network where
  "net_google = example_network (Some google_mx) (\<lambda>n. Inr (dialogue_ok @ [rcpt_ok]))"

definition net_no_mx :: network where
  "net_no_mx = example_network None (\<lambda>n. Inr [])"


definition no_options :: options where
  "no_options = \<lparr>debug = False, skipCatchAll = False\<rparr>"

section \<open>The matcher is correct\<close>

lemma nil_in_conc: "[] \<in> conc A B \<longleftrightarrow> [] \<in> A \<and> [] \<in> B"
  by (auto simp: conc_def)

lemma cons_in_conc:
  "c # w \<in> conc A B \<longleftrightarrow>
     (\<exists>u v. w = u @ v \<and> c # u \<in> A \<and> v \<in> B) \<or> ([] \<in> A \<and> c # w \<in> B)"
proof
  assume "c # w \<in> conc A B"
  then obtain u v where uv: "c # w = u @ v" "u \<in> A" "v \<in> B"
    by (auto simp: conc_def)
  show "(\<exists>u v. w = u @ v \<and> c # u \<in> A \<and> v \<in> B) \<or> ([] \<in> A \<and> c # w \<in> B)"
  proof (cases u)
    case Nil
    with uv show ?thesis by simp
  next
    case (Cons d u')
    with uv have "w = u' @ v" "c # u' \<in> A" by simp_all
    with uv show ?thesis by blast
  qed
next
  assume "(\<exists>u v. w = u @ v \<and> c # u \<in> A \<and> v \<in> B) \<or> ([] \<in> A \<and> c # w \<in> B)"
  then show "c # w \<in> conc A B"
  proof
    assume "\<exists>u v. w = u @ v \<and> c # u \<in> A \<and> v \<in> B"
    then obtain u v where "w = u @ v" "c # u \<in> A" "v \<in> B" by blast
    then have "(c # u) @ v \<in> conc A B" unfolding conc_def by blast
    with \<open>w = u @ v\<close> show ?thesis by simp
  next
    assume "[] \<in> A \<and> c # w \<in> B"
    then have "[] @ (c # w) \<in> conc A B" unfolding conc_def by blast
    then show ?thesis by simp
  qed
qed

lemma star_cons_split:
  assumes "x \<in> star A" and "x = c # w"
  shows "\<exists>u v. w = u @ v \<and> c # u \<in> A \<and> v \<in> star A"
  using assms
proof (induction arbitrary: w rule: star.induct)
  case star_nil
  then show ?case by simp
next
  case (star_app u v)
  show ?case
  proof (cases u)
    case Nil
    with star_app show ?thesis by simp
  next
    case (Cons d u')
    with star_app.prems have "w = u' @ v" "d = c" by simp_all
    with star_app.hyps Cons show ?thesis by blast
  qed
qed

lemma cons_in_star:
  "c # w \<in> star A \<longleftrightarrow> (\<exists>u v. w = u @ v \<and> c # u \<in> A \<and> v \<in> star A)"
proof
  assume "c # w \<in> star A"
  then show "\<exists>u v. w = u @ v \<and> c # u \<in> A \<and> v \<in> star A"
    by (rule star_cons_split) simp
next
  assume "\<exists>u v. w = u @ v \<and> c # u \<in> A \<and> v \<in> star A"
  then obtain u v where "w = u @ v" "c # u \<in> A" "v \<in> star A" by blast
  then have "(c # u) @ v \<in> star A" by (intro star_app)
  with \<open>w = u @ v\<close> show "c # w \<in> star A" by simp
qed

lemma nullable_lang: "nullable r \<longleftrightarrow> [] \<in> lang r"
  by (induction r) (auto simp: nil_in_conc intro: star_nil)

lemma deriv_lang: "w \<in> lang (deriv c r) \<longleftrightarrow> c # w \<in> lang r"
proof (induction r arbitrary: w)
  case (Seq r s)
  have "w \<in> conc (lang (deriv c r)) (lang s) \<longleftrightarrow>
          (\<exists>u v. w = u @ v \<and> c # u \<in> lang r \<and> v \<in> lang s)"
    using Seq.IH(1) by (auto simp: conc_def)
  then show ?case
    using Seq.IH(2) by (auto simp: cons_in_conc nullable_lang)
next
  case (Star r)
  have "w \<in> conc (lang (deriv c r)) (star (lang r)) \<longleftrightarrow>
          (\<exists>u v. w = u @ v \<and> c # u \<in> lang r \<and> v \<in> star (lang r))"
    using Star.IH by (auto simp: conc_def)
  then show ?case
    by (simp add: cons_in_star)
qed auto

lemma rx_test_full_lang: "rx_test_full r w \<longleftrightarrow> w \<in> lang r"
  by (induction w arbitrary: r) (simp_all add: nullable_lang deriv_lang)


lemma star_Class: "star {[c] | c. P c} = {w. \<forall>c \<in> set w. P c}"
proof (intro set_eqI iffI)
  fix w assume "w \<in> star {[c] | c. P c}"
  then show "w \<in> {w. \<forall>c \<in> set w. P c}"
    by (induction rule: star.induct) auto
next
  fix w assume "w \<in> {w. \<forall>c \<in> set w. P c}"
  then have "\<forall>c \<in> set w. P c" by simp
  then show "w \<in> star {[c] | c. P c}"
  proof (induction w)
    case Nil
    show ?case by (rule star_nil)
  next
    case (Cons d w)
    then have "[d] \<in> {[c] | c. P c}" "w \<in> star {[c] | c. P c}" by auto
    then have "[d] @ w \<in> star {[c] | c. P c}" by (rule star_app)
    then show ?case by simp
  qed
qed

lemma lang_Plus_Class: "lang (Plus (Class P)) = {w. w \<noteq> [] \<and> (\<forall>c \<in> set w. P c)}"
proof (intro set_eqI iffI)
  fix w assume "w \<in> lang (Plus (Class P))"
  then show "w \<in> {w. w \<noteq> [] \<and> (\<forall>c \<in> set w. P c)}"
    by (auto simp: Plus_def conc_def star_Class)
next
  fix w assume "w \<in> {w. w \<noteq> [] \<and> (\<forall>c \<in> set w. P c)}"
  then obtain d w' where w: "w = [d] @ w'" "P d" "\<forall>c \<in> set w'. P c"
    by (cases w) auto
  then show "w \<in> lang (Plus (Class P))"
    unfolding Plus_def lang.simps star_Class conc_def by blast
qed

lemma lang_AtLeast_Class:
  "lang (AtLeast n (Class P)) = {w. n \<le> length w \<and> (\<forall>c \<in> set w. P c)}"
proof (induction n)
  case 0
  show ?case by (simp add: star_Class)
next
  case (Suc n)
  show ?case
  proof (intro set_eqI iffI)
    fix w assume "w \<in> lang (AtLeast (Suc n) (Class P))"
    then show "w \<in> {w. Suc n \<le> length w \<and> (\<forall>c \<in> set w. P c)}"
      by (auto simp: Suc conc_def)
  next
    fix w assume "w \<in> {w. Suc n \<le> length w \<and> (\<forall>c \<in> set w. P c)}"
    then obtain d w' where w: "w = [d] @ w'" "P d" "n \<le> length w'" "\<forall>c \<in> set w'. P c"
      by (cases w) auto
    then show "w \<in> lang (AtLeast (Suc n) (Class P))"
      unfolding AtLeast.simps lang.simps Suc conc_def by blast
  qed
qed

lemma lang_Lit: "lang (Lit s) = {s}"
  by (induction s) (auto simp: conc_def)

lemma rx_word_iff: "rx_test_full rx_word l \<longleftrightarrow> is_lowercase_word l"
  by (simp add: rx_test_full_lang rx_word_def lang_Plus_Class is_lowercase_word_def list_all_iff)

lemma rx_random_token_iff: "rx_test_full rx_random_token l \<longleftrightarrow> looks_like_random_token l"
  by (simp add: rx_test_full_lang rx_random_token_def lang_AtLeast_Class
                looks_like_random_token_def list_all_iff)

lemma lang_first_last:
  "lang rx_first_last = {a @ ''.'' @ b | a b. is_lowercase_word a \<and> is_lowercase_word b}"
  unfolding rx_first_last_def lang.simps lang_Plus_Class lang_Lit conc_def is_lowercase_word_def
            list_all_iff
  by auto

lemma is_lowercase_word_no_dot: "is_lowercase_word a \<Longrightarrow> CHR ''.'' \<notin> set a"
  by (auto simp: is_lowercase_word_def list_all_iff is_lower_def in_range_def)

lemma rx_first_last_iff:
  "rx_test_full rx_first_last l \<longleftrightarrow>
     list_ex (\<lambda>i. l ! i = CHR ''.'' \<and> is_lowercase_word (take i l) \<and>
                  is_lowercase_word (drop (Suc i) l)) [0..<length l]"
proof
  assume "rx_test_full rx_first_last l"
  then obtain a b where l: "l = a @ ''.'' @ b" and ab: "is_lowercase_word a" "is_lowercase_word b"
    by (auto simp: rx_test_full_lang lang_first_last)
  have "length a < length l" "l ! length a = CHR ''.''" "take (length a) l = a"
       "drop (Suc (length a)) l = b"
    using l by (simp_all add: nth_append)
  with ab show "list_ex (\<lambda>i. l ! i = CHR ''.'' \<and> is_lowercase_word (take i l) \<and>
                  is_lowercase_word (drop (Suc i) l)) [0..<length l]"
    unfolding list_ex_iff by (intro bexI [of _ "length a"]) simp_all
next
  assume "list_ex (\<lambda>i. l ! i = CHR ''.'' \<and> is_lowercase_word (take i l) \<and>
                  is_lowercase_word (drop (Suc i) l)) [0..<length l]"
  then obtain i where i: "i < length l" "l ! i = CHR ''.''" "is_lowercase_word (take i l)"
      "is_lowercase_word (drop (Suc i) l)"
    by (auto simp: list_ex_iff)
  have "l = take i l @ (l ! i) # drop (Suc i) l"
    using i(1) by (simp add: id_take_nth_drop)
  then have "l = take i l @ ''.'' @ drop (Suc i) l"
    using i(2) by simp
  with i(3,4) have "l \<in> lang rx_first_last"
    unfolding lang_first_last by blast
  then show "rx_test_full rx_first_last l"
    by (simp add: rx_test_full_lang)
qed

lemma clamp_max_min: "max 0 (min 100 x) = clamp 0 100 x"
  by (simp add: clamp_def)

lemma calculateHeuristicConfidence_spec:
  "calculateHeuristicConfidence address result mailProvider =
     spec_confidence (smtp_check result) (dns_check result) mailProvider
       (is_role_account result) (localPart_of address) (is_free_email result)"
  unfolding calculateHeuristicConfidence_def spec_confidence_def Let_def clamp_max_min
            rx_word_iff rx_random_token_iff rx_first_last_iff looks_like_human_name_def
  by (intro arg_cong [where f = "clamp 0 100"]) simp


lemma rx_test_start_lang: "rx_test_start r w \<longleftrightarrow> (\<exists>u v. w = u @ v \<and> u \<in> lang r)"
proof (induction w arbitrary: r)
  case Nil
  show ?case by (simp add: nullable_lang)
next
  case (Cons c w)
  have "(\<exists>u v. c # w = u @ v \<and> u \<in> lang r) \<longleftrightarrow>
          [] \<in> lang r \<or> (\<exists>u v. w = u @ v \<and> c # u \<in> lang r)"
  proof
    assume "\<exists>u v. c # w = u @ v \<and> u \<in> lang r"
    then obtain u v where uv: "c # w = u @ v" "u \<in> lang r" by blast
    show "[] \<in> lang r \<or> (\<exists>u v. w = u @ v \<and> c # u \<in> lang r)"
    proof (cases u)
      case Nil
      with uv show ?thesis by simp
    next
      case (Cons d u')
      with uv have "w = u' @ v" "c # u' \<in> lang r" by simp_all
      then show ?thesis by blast
    qed
  next
    assume "[] \<in> lang r \<or> (\<exists>u v. w = u @ v \<and> c # u \<in> lang r)"
    then show "\<exists>u v. c # w = u @ v \<and> u \<in> lang r"
    proof
      assume "[] \<in> lang r"
      then have "c # w = [] @ (c # w) \<and> [] \<in> lang r" by simp
      then show ?thesis by blast
    next
      assume "\<exists>u v. w = u @ v \<and> c # u \<in> lang r"
      then obtain u v where "w = u @ v" "c # u \<in> lang r" by blast
      then have "c # w = (c # u) @ v \<and> c # u \<in> lang r" by simp
      then show ?thesis by blast
    qed
  qed
  then show ?case
    by (simp add: Cons.IH nullable_lang deriv_lang)
qed

lemma conc_Class:
  "conc {[c] | c. P c} B = {c # w | c w. P c \<and> w \<in> B}"
proof (intro set_eqI iffI)
  fix x assume "x \<in> conc {[c] | c. P c} B"
  then show "x \<in> {c # w | c w. P c \<and> w \<in> B}"
    by (auto simp: conc_def)
next
  fix x assume "x \<in> {c # w | c w. P c \<and> w \<in> B}"
  then obtain c w where "x = [c] @ w" "P c" "w \<in> B" by auto
  then show "x \<in> conc {[c] | c. P c} B"
    unfolding conc_def by blast
qed

lemma lang_positive:
  "lang rx_positive = {[a, b, c] | a b c. a \<in> set ''23'' \<and> is_digit b \<and> is_digit c}"
  unfolding rx_positive_def lang.simps conc_Class by blast

lemma lang_code:
  "lang rx_code = {[a, b, c] | a b c. is_digit a \<and> is_digit b \<and> is_digit c}"
  unfolding rx_code_def lang.simps conc_Class by blast

lemma positive_line:
  assumes "rx_test_start rx_positive lastLine"
  shows "rx_test_start rx_code lastLine \<and>
         (\<exists>c cs. take 3 lastLine = c # cs \<and> c \<in> set ''23'')"
proof -
  from assms obtain a b c v where l: "lastLine = [a, b, c] @ v"
    and a: "a \<in> set ''23''" and bc: "is_digit b" "is_digit c"
    unfolding rx_test_start_lang lang_positive by blast
  have "is_digit a"
    using a by (auto simp: is_digit_def in_range_def)
  with bc have "[a, b, c] \<in> lang rx_code"
    unfolding lang_code by blast
  with l have "rx_test_start rx_code lastLine"
    unfolding rx_test_start_lang by blast
  moreover have "take 3 lastLine = a # [b, c]"
    using l by simp
  ultimately show ?thesis
    using a by blast
qed

section \<open>A well-formed address has two parts\<close>

lemma split_char_no_sep: "sep \<notin> set u \<Longrightarrow> split_char sep u = [u]"
  by (induction u) auto

lemma split_char_append:
  "sep \<notin> set u \<Longrightarrow> split_char sep (u @ sep # w) = u # split_char sep w"
  by (induction u) auto

lemma split_char_not_Nil: "split_char sep s \<noteq> []"
  by (induction s) (auto split: list.splits)

lemma lang_format:
  "lang rx_format =
     {u @ ''@'' @ v @ ''.'' @ w | u v w.
        u \<noteq> [] \<and> (\<forall>c \<in> set u. not_space_at c) \<and>
        v \<noteq> [] \<and> (\<forall>c \<in> set v. not_space_at c) \<and>
        w \<noteq> [] \<and> (\<forall>c \<in> set w. not_space_at c)}"
  unfolding rx_format_def lang.simps lang_Plus_Class lang_Lit conc_def
  by blast

lemma isValidFormat_split:
  assumes "isValidFormat address"
  shows "\<exists>localPart domain. split_char CHR ''@'' address = [localPart, domain] \<and>
           localPart \<noteq> [] \<and> domain \<noteq> []"
proof -
  from assms obtain u v w where a: "address = u @ ''@'' @ v @ ''.'' @ w"
    and u: "u \<noteq> []" "\<forall>c \<in> set u. not_space_at c"
    and v: "\<forall>c \<in> set v. not_space_at c" and w: "\<forall>c \<in> set w. not_space_at c"
    unfolding isValidFormat_def rx_test_full_lang lang_format by blast
  have "CHR ''@'' \<notin> set u" "CHR ''@'' \<notin> set (v @ ''.'' @ w)"
    using u v w by (auto simp: not_space_at_def)
  then have "split_char CHR ''@'' (u @ CHR ''@'' # (v @ ''.'' @ w)) = [u, v @ ''.'' @ w]"
    by (simp add: split_char_append split_char_no_sep)
  with a u show ?thesis by simp
qed

section \<open>The paths of a verification\<close>

lemma random_probes_unrolled:
  "random_probes net dl h 0 [] ops =
     (case testSMTPConnection net 1 (generateRandomEmail net 0 dl) h of
        Inl message \<Rightarrow>
          (Inl message, ops @ [RandomBytes 16, SmtpConnect h (generateRandomEmail net 0 dl)])
      | Inr random1 \<Rightarrow>
          (case testSMTPConnection net 2 (generateRandomEmail net 1 dl) h of
             Inl message \<Rightarrow>
               (Inl message,
                ops @ [RandomBytes 16, SmtpConnect h (generateRandomEmail net 0 dl), Sleep 1000,
                       RandomBytes 16, SmtpConnect h (generateRandomEmail net 1 dl)])
           | Inr random2 \<Rightarrow>
               (Inr [random1, random2],
                ops @ [RandomBytes 16, SmtpConnect h (generateRandomEmail net 0 dl), Sleep 1000,
                       RandomBytes 16, SmtpConnect h (generateRandomEmail net 1 dl)])))"
proof -
  have two: "random_probes net dl h (Suc (Suc 0)) ts ops' = (Inr ts, ops')" for ts ops'
    by (subst random_probes.simps) (simp add: numTests_def)
  have one: "random_probes net dl h (Suc 0) ts ops' =
     (case testSMTPConnection net (Suc (Suc 0)) (generateRandomEmail net (Suc 0) dl) h of
        Inl message \<Rightarrow>
          (Inl message,
           ops' @ [RandomBytes 16, SmtpConnect h (generateRandomEmail net (Suc 0) dl)])
      | Inr random2 \<Rightarrow>
          (Inr (ts @ [random2]),
           ops' @ [RandomBytes 16, SmtpConnect h (generateRandomEmail net (Suc 0) dl)]))"
    for ts ops'
    by (subst random_probes.simps) (simp add: numTests_def two Let_def split: sum.splits)
  show ?thesis
    by (subst random_probes.simps)
       (simp add: numTests_def one Let_def numeral_2_eq_2 split: sum.splits)
qed

lemma verifyEmail_try_filters_passed:
  assumes "isValidFormat address"
      and "split_char CHR ''@'' address = [localPart, domain]"
      and "\<not> isDisposableDomain (toLowerCase domain)"
  shows "verifyEmail_try net address opts =
           (case resolveMx net (toLowerCase domain) of
              None \<Rightarrow> returns (no_mx (filtered_result address localPart domain))
                        [DnsQuery (toLowerCase domain)]
            | Some mxRecords \<Rightarrow>
                if mxRecords = []
                then returns (no_mx (filtered_result address localPart domain))
                       [DnsQuery (toLowerCase domain)]
                else smtp_stage net address (skipCatchAll opts)
                       (filtered_result address localPart domain) (toLowerCase domain)
                       mxRecords [DnsQuery (toLowerCase domain)])"
  using assms
  by (simp add: verifyEmail_try_def Let_def initial_result_def filtered_result_def
           split: option.splits)

lemma smtp_stage_accepted:
  assumes "testSMTPConnection net 0 address (hd (map exchange (sort_key priority mxRecords)))
             = Inr realEmailCheck"
      and "connected realEmailCheck" and "accepted realEmailCheck"
  shows "smtp_stage net address skip (filtered_result address localPart domain) dl mxRecords ops =
           (let hosts = map exchange (sort_key priority mxRecords);
                mailProvider = detectMailProvider hosts
            in if skip \<or> mailProvider = ''google_workspace'' \<or>
                  mailProvider = ''microsoft365'' \<or> mailProvider = ''corporate''
               then returns (heuristic_verdict address
                               (probed_result address localPart domain hosts) mailProvider)
                      (ops @ [SmtpConnect (hd hosts) address])
               else catch_all_test net (probed_result address localPart domain hosts) dl
                      (hd hosts) (ops @ [SmtpConnect (hd hosts) address]))"
  using assms
  by (simp add: smtp_stage_def Let_def probed_result_def filtered_result_def)

lemma verifyEmail_try_accepted:
  assumes "isValidFormat address"
      and "split_char CHR ''@'' address = [localPart, domain]"
      and "\<not> isDisposableDomain (toLowerCase domain)"
      and "resolveMx net (toLowerCase domain) = Some mxRecords" and "mxRecords \<noteq> []"
      and "hosts = map exchange (sort_key priority mxRecords)"
      and "testSMTPConnection net 0 address (hd hosts) = Inr realEmailCheck"
      and "connected realEmailCheck" and "accepted realEmailCheck"
  shows "verifyEmail_try net address opts =
           (if skipCatchAll opts \<or> detectMailProvider hosts = ''google_workspace'' \<or>
               detectMailProvider hosts = ''microsoft365'' \<or>
               detectMailProvider hosts = ''corporate''
            then returns (heuristic_verdict address
                            (probed_result address localPart domain hosts)
                            (detectMailProvider hosts))
                   [DnsQuery (toLowerCase domain), SmtpConnect (hd hosts) address]
            else catch_all_test net (probed_result address localPart domain hosts)
                   (toLowerCase domain) (hd hosts)
                   [DnsQuery (toLowerCase domain), SmtpConnect (hd hosts) address])"
proof -
  have "verifyEmail_try net address opts =
          smtp_stage net address (skipCatchAll opts) (filtered_result address localPart domain)
            (toLowerCase domain) mxRecords [DnsQuery (toLowerCase domain)]"
    using assms(4,5) by (simp add: verifyEmail_try_filters_passed [OF assms(1,2,3)])
  also have "\<dots> = (if skipCatchAll opts \<or> detectMailProvider hosts = ''google_workspace'' \<or>
               detectMailProvider hosts = ''microsoft365'' \<or>
               detectMailProvider hosts = ''corporate''
            then returns (heuristic_verdict address
                            (probed_result address localPart domain hosts)
                            (detectMailProvider hosts))
                   [DnsQuery (toLowerCase domain), SmtpConnect (hd hosts) address]
            else catch_all_test net (probed_result address localPart domain hosts)
                   (toLowerCase domain) (hd hosts)
                   [DnsQuery (toLowerCase domain), SmtpConnect (hd hosts) address])"
    using smtp_stage_accepted [OF assms(7) [unfolded assms(6)] assms(8,9)]
    by (simp add: Let_def assms(6))
  finally show ?thesis .
qed

lemma catch_all_test_two:
  assumes "testSMTPConnection net 1 (generateRandomEmail net 0 dl) h = Inr random1"
      and "testSMTPConnection net 2 (generateRandomEmail net 1 dl) h = Inr random2"
  shows "fst (snd (catch_all_test net r dl h ops)) =
           (if accepted random1 \<and> accepted random2
            then r\<lparr>is_catch_all := True, status := ''catch_all'',
                   reason := ''Domain accepts all emails (catch-all)'',
                   confidence_score := 60, risk_level := ''medium''\<rparr>
            else r\<lparr>status := ''valid'', reason := ''Email verified successfully'',
                   confidence_score := 90, risk_level := ''low''\<rparr>)"
    and "fst (catch_all_test net r dl h ops) = None"
  using assms
  by (simp_all add: catch_all_test_def random_probes_unrolled Let_def numTests_def returns_def)

lemma verifyEmail_of_try:
  "fst (verifyEmail_try net address opts) = None \<Longrightarrow>
     verifyEmail net address opts = fst (snd (verifyEmail_try net address opts))"
  by (cases "verifyEmail_try net address opts")
     (simp add: verifyEmail_def verifyEmail_run_def)


lemma verifyEmail_ops_of_try:
  "network_ops net address opts = snd (snd (verifyEmail_try net address opts))"
  by (cases "verifyEmail_try net address opts")
     (simp add: network_ops_def verifyEmail_run_def split: option.splits)

lemma skip_path_result:
  assumes "isValidFormat address"
      and "split_char CHR ''@'' address = [localPart, domain]"
      and "\<not> isDisposableDomain (toLowerCase domain)"
      and "resolveMx net (toLowerCase domain) = Some mxRecords" and "mxRecords \<noteq> []"
      and "hosts = map exchange (sort_key priority mxRecords)"
      and "testSMTPConnection net 0 address (hd hosts) = Inr realEmailCheck"
      and "connected realEmailCheck" and "accepted realEmailCheck"
      and "skipCatchAll opts \<or>
           detectMailProvider hosts \<in> {''google_workspace'', ''microsoft365'', ''corporate''}"
  shows "verifyEmail net address opts =
           heuristic_verdict address (probed_result address localPart domain hosts)
             (detectMailProvider hosts)"
proof -
  have "verifyEmail_try net address opts =
          returns (heuristic_verdict address (probed_result address localPart domain hosts)
                     (detectMailProvider hosts))
            [DnsQuery (toLowerCase domain), SmtpConnect (hd hosts) address]"
    using assms(10) by (auto simp: verifyEmail_try_accepted [OF assms(1-9)])
  then show ?thesis
    by (simp add: verifyEmail_def verifyEmail_run_def returns_def)
qed

lemma discriminator_result:
  assumes "isValidFormat address"
      and "split_char CHR ''@'' address = [localPart, domain]"
      and "\<not> isDisposableDomain (toLowerCase domain)"
      and "resolveMx net (toLowerCase domain) = Some mxRecords" and "mxRecords \<noteq> []"
      and "hosts = map exchange (sort_key priority mxRecords)"
      and "testSMTPConnection net 0 address (hd hosts) = Inr realEmailCheck"
      and "connected realEmailCheck" and "accepted realEmailCheck"
      and "\<not> skipCatchAll opts"
      and "detectMailProvider hosts \<notin> {''google_workspace'', ''microsoft365'', ''corporate''}"
      and "testSMTPConnection net 1 (generateRandomEmail net 0 (toLowerCase domain)) (hd hosts)
             = Inr random1"
      and "testSMTPConnection net 2 (generateRandomEmail net 1 (toLowerCase domain)) (hd hosts)
             = Inr random2"
  shows "verifyEmail net address opts =
           (if accepted random1 \<and> accepted random2
            then (probed_result address localPart domain hosts)
                   \<lparr>is_catch_all := True, status := ''catch_all'',
                    reason := ''Domain accepts all emails (catch-all)'',
                    confidence_score := 60, risk_level := ''medium''\<rparr>
            else (probed_result address localPart domain hosts)
                   \<lparr>status := ''valid'', reason := ''Email verified successfully'',
                    confidence_score := 90, risk_level := ''low''\<rparr>)"
proof -
  have t: "verifyEmail_try net address opts =
             catch_all_test net (probed_result address localPart domain hosts)
               (toLowerCase domain) (hd hosts)
               [DnsQuery (toLowerCase domain), SmtpConnect (hd hosts) address]"
    using assms(10,11) by (simp add: verifyEmail_try_accepted [OF assms(1-9)])
  have "fst (verifyEmail_try net address opts) = None"
    unfolding t by (rule catch_all_test_two(2) [OF assms(12,13)])
  then have "verifyEmail net address opts = fst (snd (verifyEmail_try net address opts))"
    by (rule verifyEmail_of_try)
  then show ?thesis
    unfolding t catch_all_test_two(1) [OF assms(12,13)] .
qed


section \<open>What a run keeps\<close>

lemma smtp_stage_google:
  assumes "detectMailProvider (map exchange (sort_key priority mxRecords)) = ''google_workspace''"
  shows "smtp_stage net address skip r dl mxRecords ops =
           smtp_stage net address True r dl mxRecords ops"
    and "set (snd (snd (smtp_stage net address skip r dl mxRecords ops))) \<subseteq>
           set ops \<union> {SmtpConnect (hd (map exchange (sort_key priority mxRecords))) address}"
  using assms
  by (auto simp: smtp_stage_def Let_def returns_def throws_def split: sum.splits)

lemma catch_all_test_keeps:
  "dns_check (fst (snd (catch_all_test net r dl h ops))) = dns_check r \<and>
   mx_records (fst (snd (catch_all_test net r dl h ops))) = mx_records r"
  by (cases "random_probes net dl h 0 [] ops")
     (auto simp: catch_all_test_def returns_def throws_def Let_def split: sum.splits)

lemma heuristic_verdict_keeps:
  "dns_check (heuristic_verdict address r p) = dns_check r \<and>
   mx_records (heuristic_verdict address r p) = mx_records r"
  by (simp add: heuristic_verdict_def Let_def)

lemma smtp_stage_keeps:
  "dns_check (fst (snd (smtp_stage net address skip r dl mxRecords ops))) \<and>
   mx_records (fst (snd (smtp_stage net address skip r dl mxRecords ops))) =
     map exchange (sort_key priority mxRecords)"
  by (simp add: smtp_stage_def Let_def returns_def throws_def catch_all_test_keeps
                heuristic_verdict_keeps split: sum.splits)

lemma catch_all_test_ops:
  "DnsQuery d \<in> set (snd (snd (catch_all_test net r dl h ops))) \<Longrightarrow> DnsQuery d \<in> set ops"
  by (auto simp: catch_all_test_def random_probes_unrolled returns_def throws_def Let_def
           split: sum.splits if_splits)

lemma smtp_stage_ops:
  "DnsQuery d \<in> set (snd (snd (smtp_stage net address skip r dl mxRecords ops))) \<Longrightarrow>
     DnsQuery d \<in> set ops"
  by (auto simp: smtp_stage_def returns_def throws_def Let_def
           dest: catch_all_test_ops split: sum.splits if_splits)

lemma dns_query_performed:
  assumes "DnsQuery d \<in> set (network_ops net address opts)"
  shows "\<exists>r0. verifyEmail_try net address opts =
           (case resolveMx net d of
              None \<Rightarrow> returns (no_mx r0) [DnsQuery d]
            | Some mxRecords \<Rightarrow>
                if mxRecords = [] then returns (no_mx r0) [DnsQuery d]
                else smtp_stage net address (skipCatchAll opts) r0 d mxRecords [DnsQuery d])"
proof -
  note ops = verifyEmail_ops_of_try [of net address opts]
  show ?thesis
  proof (cases "isValidFormat address")
    case False
    with assms show ?thesis
      by (simp add: ops verifyEmail_try_def Let_def returns_def)
  next
    case True
    then obtain localPart domain where s: "split_char CHR ''@'' address = [localPart, domain]"
      using isValidFormat_split by blast
    show ?thesis
    proof (cases "isDisposableDomain (toLowerCase domain)")
      case disp: True
      with assms True s show ?thesis
        by (simp add: ops verifyEmail_try_def Let_def returns_def)
    next
      case False
      note t = verifyEmail_try_filters_passed [OF True s False, of net opts]
      have "DnsQuery d \<in> set [DnsQuery (toLowerCase domain)]"
        using assms unfolding ops t
        by (auto simp: returns_def dest: smtp_stage_ops split: option.splits if_splits)
      then have "d = toLowerCase domain" by simp
      with t show ?thesis by blast
    qed
  qed
qed


section \<open>An accepted probe has connected\<close>

lemma classify_connected: "connected (classify lastLine lastCode)"
  by (simp add: classify_def Let_def)

lemma on_data_sound: "state_sound st \<Longrightarrow> state_sound (on_data address st data)"
  by (simp add: on_data_def Let_def state_sound_def outcome_sound_def classify_connected)

lemma on_event_sound: "state_sound st \<Longrightarrow> state_sound (on_event address st e)"
  by (cases e) (simp_all add: on_data_sound, simp_all add: state_sound_def outcome_sound_def)

lemma run_events_sound: "state_sound st \<Longrightarrow> state_sound (run_events address st es)"
  by (induction es arbitrary: st) (simp_all add: on_event_sound split: option.splits)

lemma probe_result_sound: "accepted (probe_result address es) \<Longrightarrow> connected (probe_result address es)"
proof -
  have "state_sound (smtp_dialogue address es)"
    unfolding smtp_dialogue_def
    by (rule run_events_sound) (simp add: state_sound_def initial_state_def)
  then show "accepted (probe_result address es) \<Longrightarrow> connected (probe_result address es)"
    by (simp add: probe_result_def state_sound_def outcome_sound_def split: option.splits)
qed

lemma testSMTPConnection_sound:
  "testSMTPConnection net n address mxHost = Inr outcome \<Longrightarrow> accepted outcome \<Longrightarrow>
     connected outcome"
  by (auto simp: testSMTPConnection_def probe_result_sound split: sum.splits)

section \<open>A connected outcome carries a 2xx or 3xx code\<close>

text \<open>
  The verdict of lines 685 to 735 is taken inside the test \<^verbatim>\<open>/^[23]\d{2}/\<close> of line 676,
  on the line that passed it. So whatever the server sends, an outcome with
  \<open>connected = True\<close> carries a code that begins with 2 or 3: the branches for 550, 551,
  553, 554, for 450, 451, 452 and for the other 4xx and 5xx codes are never taken.
\<close>

lemma classify_code: "code (classify lastLine lastCode) = Some lastCode"
  by (simp add: classify_def Let_def)

lemma on_data_positive_code:
  assumes "\<forall>outcome. resolved st = Some outcome \<longrightarrow> positive_code outcome"
  shows "\<forall>outcome. resolved (on_data address st data) = Some outcome \<longrightarrow> positive_code outcome"
proof (cases "rx_test_start rx_positive (lastLine_of (response st @ data))")
  case True
  from positive_line [OF True] obtain c cs
    where p: "rx_test_start rx_code (lastLine_of (response st @ data))"
      and t: "take 3 (lastLine_of (response st @ data)) = c # cs" "c \<in> set ''23''"
    by blast
  have "positive_code (classify l (c # cs))" for l
    using t(2) by (simp add: positive_code_def classify_code)
  then show ?thesis
    using assms True p t(1)
    by (simp add: on_data_def Let_def)
next
  case False
  have "positive_code \<lparr>connected = False, accepted = False, probe_reason = m, code = k\<rparr>"
    for m k
    by (simp add: positive_code_def)
  then show ?thesis
    using assms False
    by (simp add: on_data_def Let_def)
qed

lemma run_events_positive_code:
  "\<forall>outcome. resolved st = Some outcome \<longrightarrow> positive_code outcome \<Longrightarrow>
   \<forall>outcome. resolved (run_events address st es) = Some outcome \<longrightarrow> positive_code outcome"
proof (induction es arbitrary: st)
  case Nil
  then show ?case by simp
next
  case (Cons e es)
  show ?case
  proof (cases "resolved st")
    case None
    have "\<forall>outcome. resolved (on_event address st e) = Some outcome \<longrightarrow> positive_code outcome"
    proof (cases e)
      case (OnData data)
      then show ?thesis
        using on_data_positive_code [OF Cons.prems] by simp
    qed (simp_all add: positive_code_def)
    then show ?thesis
      using None Cons.IH by simp
  next
    case (Some outcome)
    with Cons.prems show ?thesis by simp
  qed
qed

lemma connected_outcome_code:
  assumes "connected (probe_result address events)"
  shows "\<exists>c cs. code (probe_result address events) = Some (c # cs) \<and> c \<in> set ''23''"
proof -
  have "\<forall>outcome. resolved (smtp_dialogue address events) = Some outcome \<longrightarrow> positive_code outcome"
    unfolding smtp_dialogue_def
    by (rule run_events_positive_code) (simp add: initial_state_def)
  then show ?thesis
    using assms
    by (cases "resolved (smtp_dialogue address events)")
       (auto simp: probe_result_def positive_code_def)
qed

lemma sorted_hosts_not_Nil:
  assumes "mxRecords \<noteq> []"
  shows "map exchange (sort_key priority mxRecords) \<noteq> []"
proof -
  have "length (map exchange (sort_key priority mxRecords)) = length mxRecords"
    by simp
  then show ?thesis
    using assms by (metis length_0_conv)
qed

section \<open>A connection that throws ends the try block\<close>







lemma raised_returns: "raised_by_connection net (returns r ops)"
  by (simp add: raised_by_connection_def returns_def)

lemma catch_all_test_raised:
  "raised_by_connection net
     (catch_all_test net r dl h [DnsQuery dl, SmtpConnect h address])"
proof -
  have k1: "\<exists>k mxHost probed. k < Suc (Suc 0) \<and>
              [(h, address), (h, a1)] ! k = (mxHost, probed) \<and>
              session net k mxHost probed = Inl m"
    if "session net (Suc 0) h a1 = Inl m" for a1 m
    using that by (intro exI [of _ "Suc 0"]) simp
  have k2: "\<exists>k mxHost probed. k < Suc (Suc (Suc 0)) \<and>
              [(h, address), (h, a1), (h, a2)] ! k = (mxHost, probed) \<and>
              session net k mxHost probed = Inl m"
    if "session net (Suc (Suc 0)) h a2 = Inl m" for a1 a2 m
    using that by (intro exI [of _ "Suc (Suc 0)"]) simp
  show ?thesis
    using k1 k2
    by (auto simp: raised_by_connection_def catch_all_test_def random_probes_unrolled
                   testSMTPConnection_def returns_def throws_def Let_def numeral_2_eq_2
             split: sum.splits)
qed

lemma smtp_stage_raised:
  "raised_by_connection net (smtp_stage net address skip r dl mxRecords [DnsQuery dl])"
proof (cases "session net 0 (hd (map exchange (sort_key priority mxRecords))) address")
  case (Inl message)
  then show ?thesis
    by (simp add: raised_by_connection_def smtp_stage_def testSMTPConnection_def throws_def
                  Let_def)
next
  case (Inr events)
  then show ?thesis
    using catch_all_test_raised [of net _ dl "hd (map exchange (sort_key priority mxRecords))"
            address]
    by (simp add: smtp_stage_def testSMTPConnection_def Let_def raised_returns)
qed

lemma thrown_by_connection:
  assumes "thrown net address opts = Some message"
  shows "\<exists>k mxHost probed.
           k < length (connections (network_ops net address opts)) \<and>
           connections (network_ops net address opts) ! k = (mxHost, probed) \<and>
           session net k mxHost probed = Inl message"
proof (cases "isValidFormat address")
  case False
  with assms show ?thesis
    by (simp add: thrown_def verifyEmail_try_def returns_def)
next
  case True
  then obtain localPart domain where s: "split_char CHR ''@'' address = [localPart, domain]"
    using isValidFormat_split by blast
  have "raised_by_connection net (verifyEmail_try net address opts)"
    using True s
    by (simp add: verifyEmail_try_def Let_def raised_returns smtp_stage_raised
             split: option.splits)
  then show ?thesis
    using assms
    by (cases "verifyEmail_try net address opts")
       (simp add: raised_by_connection_def thrown_def verifyEmail_ops_of_try)
qed

section \<open>The network operations of a run\<close>

lemma catch_all_test_ops_mono:
  "set ops \<subseteq> set (snd (snd (catch_all_test net r dl h ops)))"
  by (auto simp: catch_all_test_def random_probes_unrolled returns_def throws_def Let_def
           split: sum.splits)

lemma smtp_stage_ops_mono:
  "set ops \<subseteq> set (snd (snd (smtp_stage net address skip r dl mxRecords ops)))"
proof -
  have c: "x \<in> set ops' \<Longrightarrow> x \<in> set (snd (snd (catch_all_test net r' dl h ops')))"
    for x ops' r' h
    using catch_all_test_ops_mono by blast
  show ?thesis
    by (auto simp: smtp_stage_def returns_def throws_def Let_def intro: c split: sum.splits)
qed

lemma dns_query_recorded:
  assumes "isValidFormat address"
      and "split_char CHR ''@'' address = [localPart, domain]"
      and "\<not> isDisposableDomain (toLowerCase domain)"
  shows "DnsQuery (toLowerCase domain) \<in> set (network_ops net address opts)"
proof -
  have "DnsQuery (toLowerCase domain) \<in>
          set (snd (snd (smtp_stage net address skip r (toLowerCase domain) mxRecords
                           [DnsQuery (toLowerCase domain)])))" for skip r mxRecords
    using smtp_stage_ops_mono by fastforce
  then show ?thesis
    unfolding verifyEmail_ops_of_try verifyEmail_try_filters_passed [OF assms]
    by (simp add: returns_def split: option.splits)
qed


section \<open>Evaluation at concrete inputs\<close>

lemma run_events_resolved:
  "resolved st = Some outcome \<Longrightarrow> run_events address st es = st"
  by (cases es) simp_all

lemma accepted_probe: "probe_result address (dialogue_ok @ es) = email_accepted"
  by (simp add: probe_result_def smtp_dialogue_def initial_state_def on_data_def lastLine_of_def
      classify_def commands_def CRLF_def rx_code_def rx_positive_def rx_negative_def rx_250_def
      rx_no_user_def rx_greylist_def is_digit_def in_range_def toLowerCase_def toLowerCase_char_def
      is_upper_def Let_def dialogue_ok_def email_accepted_def run_events_resolved)

lemma silent_after_helo:
  "probe_result address (take 2 dialogue_ok) =
     \<lparr>connected = False, accepted = False, probe_reason = ''Connection timeout'', code = None\<rparr>"
  by (simp add: probe_result_def smtp_dialogue_def initial_state_def on_data_def lastLine_of_def
      commands_def CRLF_def rx_code_def rx_positive_def is_digit_def in_range_def Let_def
      dialogue_ok_def)

lemma refused_probe: "probe_result address [OnError ''connect ECONNREFUSED''] = connection_refused"
  by (simp add: probe_result_def smtp_dialogue_def initial_state_def connection_refused_def)

lemma example_session:
  "testSMTPConnection (example_network mx sessions) n address mxHost =
     (case sessions n of
        Inl message \<Rightarrow> Inl message
      | Inr events \<Rightarrow> Inr (probe_result address events))"
  by (simp add: testSMTPConnection_def example_network_def)

lemma bob_format: "isValidFormat ''bob@example.com''"
  by code_simp

lemma bob_split: "split_char CHR ''@'' ''bob@example.com'' = [''bob'', ''example.com'']"
  by simp

lemma example_lower: "toLowerCase ''example.com'' = ''example.com''"
  by code_simp

lemma example_not_disposable: "\<not> isDisposableDomain (toLowerCase ''example.com'')"
  by code_simp

lemma example_resolveMx:
  "resolveMx (example_network mx sessions) (toLowerCase ''example.com'') = mx"
  by (simp add: example_network_def example_lower)

lemma consumer_sorted: "consumer_hosts = map exchange (sort_key priority consumer_mx)"
  by code_simp

lemma consumer_provider: "detectMailProvider consumer_hosts = ''consumer''"
  by code_simp

lemma corporate_sorted: "[''mx.example.com''] = map exchange (sort_key priority corporate_mx)"
  by code_simp

lemma corporate_provider: "detectMailProvider [''mx.example.com''] = ''corporate''"
  by code_simp

lemma google_sorted: "[''aspmx.l.google.com''] = map exchange (sort_key priority google_mx)"
  by code_simp

lemma google_provider: "detectMailProvider [''aspmx.l.google.com''] = ''google_workspace''"
  by code_simp

lemma bob_confidence: "spec_confidence True True ''corporate'' False ''bob'' False = 85"
  by code_simp

lemma bob_no_role: "isRoleAccount ''bob'' = False"
  by code_simp

lemma example_not_free: "isFreeEmailProvider (toLowerCase ''example.com'') = False"
  by code_simp

lemma bob_corporate_verdict:
  "heuristic_verdict ''bob@example.com''
     (probed_result ''bob@example.com'' ''bob'' ''example.com'' [''mx.example.com''])
     ''corporate'' =
   \<lparr>email = ''bob@example.com'', status = ''valid'', reason = ''Email accepted by mail server'',
    is_catch_all = False, is_disposable = False, is_free_email = False,
    is_role_account = False, mx_records = [''mx.example.com''], smtp_check = True,
    dns_check = True, confidence_score = 85, risk_level = ''low''\<rparr>"
proof -
  have "calculateHeuristicConfidence ''bob@example.com''
          (probed_result ''bob@example.com'' ''bob'' ''example.com'' [''mx.example.com''])
          ''corporate'' = 85"
    by (simp add: calculateHeuristicConfidence_spec probed_result_def filtered_result_def
                  localPart_of_def bob_split bob_no_role example_not_free bob_confidence)
  then show ?thesis
    by (simp add: heuristic_verdict_def Let_def probed_result_def filtered_result_def
                  bob_no_role example_not_free)
qed

section \<open>The probe decides on the reply to MAIL FROM\<close>

text \<open>
  Claim C1. A dialogue whose greeting, \<^verbatim>\<open>HELO\<close> reply and \<^verbatim>\<open>MAIL FROM\<close> reply are 2xx and
  whose reply to \<^verbatim>\<open>RCPT TO\<close> is \<^verbatim>\<open>550 No such user\<close> should end in
  \<open>connected = True\<close>, \<open>accepted = False\<close>, reason \<^verbatim>\<open>User does not exist\<close>, and
  \<^verbatim>\<open>verifyEmail\<close> on that mailbox in status \<^verbatim>\<open>invalid\<close>. The code does otherwise: in the
  \<^verbatim>\<open>data\<close> event that carries the reply to \<^verbatim>\<open>MAIL FROM\<close>, \<open>step\<close> is 2, and lines 678
  to 736 write \<^verbatim>\<open>RCPT TO\<close>, write \<^verbatim>\<open>QUIT\<close> and resolve the promise on that same line. The
  reply to \<^verbatim>\<open>RCPT TO\<close>, and every later event \<open>es\<close>, is never read. The probe reports the
  address as accepted and the verification ends in status \<^verbatim>\<open>valid\<close>. Lemma
  \<open>connected_outcome_code\<close> is the general form: no dialogue gives a connected outcome
  with a 4xx or 5xx code.
\<close>

theorem rcpt_550_reported_accepted:
  "probe_result ''bob@example.com'' (dialogue_ok @ rcpt_no_such_user # es) =
     \<lparr>connected = True, accepted = True, probe_reason = ''Email accepted'',
      code = Some ''250''\<rparr> \<and>
   written (smtp_dialogue ''bob@example.com'' dialogue_ok) = commands ''bob@example.com'' \<and>
   status (verifyEmail net_no_such_user ''bob@example.com'' no_options) = ''valid'' \<and>
   confidence_score (verifyEmail net_no_such_user ''bob@example.com'' no_options) = 85"
proof -
  have p: "testSMTPConnection net_no_such_user 0 ''bob@example.com'' (hd [''mx.example.com''])
             = Inr email_accepted"
    by (simp add: net_no_such_user_def example_session accepted_probe)
  have mx: "resolveMx net_no_such_user (toLowerCase ''example.com'') = Some corporate_mx"
    by (simp add: net_no_such_user_def example_resolveMx)
  have "verifyEmail net_no_such_user ''bob@example.com'' no_options =
          heuristic_verdict ''bob@example.com''
            (probed_result ''bob@example.com'' ''bob'' ''example.com'' [''mx.example.com''])
            (detectMailProvider [''mx.example.com''])"
    by (rule skip_path_result [OF bob_format bob_split example_not_disposable mx _
                                  corporate_sorted p])
       (simp_all add: corporate_mx_def email_accepted_def corporate_provider)
  then have v: "status (verifyEmail net_no_such_user ''bob@example.com'' no_options) = ''valid'' \<and>
      confidence_score (verifyEmail net_no_such_user ''bob@example.com'' no_options) = 85"
    by (simp add: corporate_provider bob_corporate_verdict)
  have w: "written (smtp_dialogue ''bob@example.com'' dialogue_ok) = commands ''bob@example.com''"
    by (simp add: smtp_dialogue_def initial_state_def on_data_def lastLine_of_def
      classify_def commands_def CRLF_def rx_code_def rx_positive_def rx_negative_def rx_250_def
      rx_no_user_def rx_greylist_def is_digit_def in_range_def toLowerCase_def toLowerCase_char_def
      is_upper_def Let_def dialogue_ok_def)
  show ?thesis
    using accepted_probe [of "''bob@example.com''" "rcpt_no_such_user # es"] v w
    by (simp add: email_accepted_def)
qed

text \<open>
  Claim C2. A server that answers the greeting, \<^verbatim>\<open>HELO\<close> and \<^verbatim>\<open>MAIL FROM\<close> with 2xx
  replies and then stays silent should make the probe end in \<open>connected = False\<close> with the
  reason \<^verbatim>\<open>Connection timeout\<close>. The code does otherwise, by the defect of claim C1: the
  promise is resolved, and the timer cleared (line 681), when the reply to \<^verbatim>\<open>MAIL FROM\<close>
  arrives. With no event after it the probe still reports \<open>connected = True\<close> and
  \<open>accepted = True\<close>. A server that falls silent one reply earlier, after \<^verbatim>\<open>HELO\<close>, does
  get the timeout.
\<close>

theorem rcpt_silence_reported_accepted:
  "probe_result ''bob@example.com'' dialogue_ok =
     \<lparr>connected = True, accepted = True, probe_reason = ''Email accepted'',
      code = Some ''250''\<rparr> \<and>
   probe_result ''bob@example.com'' (take 2 dialogue_ok) =
     \<lparr>connected = False, accepted = False, probe_reason = ''Connection timeout'',
      code = None\<rparr>"
  using accepted_probe [of "''bob@example.com''" "[]"]
        silent_after_helo [of "''bob@example.com''"]
  by (simp add: email_accepted_def)


section \<open>The format filter\<close>

text \<open>
  What the code does for every address that fails the shape check: the result is
  \<^verbatim>\<open>invalid\<close> with score 0, no network operation is performed, and \<open>risk_level\<close> is left
  at \<^verbatim>\<open>unknown\<close>.
\<close>

lemma invalid_format_result:
  assumes "\<not> isValidFormat address"
  shows "verifyEmail_run net address opts =
           ((initial_result address)
              \<lparr>status := ''invalid'', reason := ''Invalid email format'',
               confidence_score := 0\<rparr>, [])"
  using assms
  by (simp add: verifyEmail_run_def verifyEmail_try_def returns_def)

text \<open>
  Claim C3. An address that fails the shape check should give status \<^verbatim>\<open>invalid\<close>, score 0
  and risk \<^verbatim>\<open>high\<close> with no network operation. Lines 418 to 423 set the status, the reason
  and the score and return; they do not set \<open>risk_level\<close>, which keeps its initial value
  \<^verbatim>\<open>unknown\<close>. The two other early rejections (lines 437 and 451) set it to \<^verbatim>\<open>high\<close>. At
  the address \<^verbatim>\<open>not-an-email\<close>, for every network and option record:
\<close>

theorem invalid_format_risk_unknown:
  "verifyEmail_run net ''not-an-email'' opts =
     (\<lparr>email = ''not-an-email'', status = ''invalid'', reason = ''Invalid email format'',
       is_catch_all = False, is_disposable = False, is_free_email = False,
       is_role_account = False, mx_records = [], smtp_check = False, dns_check = False,
       confidence_score = 0, risk_level = ''unknown''\<rparr>, [])"
proof -
  have "\<not> isValidFormat ''not-an-email''"
    by code_simp
  then show ?thesis
    by (simp add: invalid_format_result initial_result_def)
qed


section \<open>The catch-all discriminator\<close>

text \<open>
  Claim C4. In every verification that reaches the catch-all discriminator (the address
  passes the filters, its domain has MX records, the probe of the address is accepted, the
  caller did not ask to skip and the provider is none of \<^verbatim>\<open>google_workspace\<close>,
  \<^verbatim>\<open>microsoft365\<close>, \<^verbatim>\<open>corporate\<close>) and in which the two synthetic probes return the
  outcomes \<open>random1\<close> and \<open>random2\<close>: if both are accepted the result is \<^verbatim>\<open>catch_all\<close>
  with \<open>is_catch_all\<close>, score 60 and risk \<^verbatim>\<open>medium\<close>; if at least one is not accepted the
  result is \<^verbatim>\<open>valid\<close> with score 90 and risk \<^verbatim>\<open>low\<close>.
\<close>

theorem catch_all_discriminator:
  assumes "isValidFormat address"
      and "split_char CHR ''@'' address = [localPart, domain]"
      and "\<not> isDisposableDomain (toLowerCase domain)"
      and "resolveMx net (toLowerCase domain) = Some mxRecords" and "mxRecords \<noteq> []"
      and "hosts = map exchange (sort_key priority mxRecords)"
      and "testSMTPConnection net 0 address (hd hosts) = Inr realEmailCheck"
      and "connected realEmailCheck" and "accepted realEmailCheck"
      and "\<not> skipCatchAll opts"
      and "detectMailProvider hosts \<notin> {''google_workspace'', ''microsoft365'', ''corporate''}"
      and "testSMTPConnection net 1 (generateRandomEmail net 0 (toLowerCase domain)) (hd hosts)
             = Inr random1"
      and "testSMTPConnection net 2 (generateRandomEmail net 1 (toLowerCase domain)) (hd hosts)
             = Inr random2"
  shows "(accepted random1 \<and> accepted random2 \<longrightarrow>
            status (verifyEmail net address opts) = ''catch_all'' \<and>
            is_catch_all (verifyEmail net address opts) \<and>
            confidence_score (verifyEmail net address opts) = 60 \<and>
            risk_level (verifyEmail net address opts) = ''medium'') \<and>
         (\<not> (accepted random1 \<and> accepted random2) \<longrightarrow>
            status (verifyEmail net address opts) = ''valid'' \<and>
            confidence_score (verifyEmail net address opts) = 90 \<and>
            risk_level (verifyEmail net address opts) = ''low'')"
  unfolding discriminator_result [OF assms] by simp

theorem catch_all_discriminator_witness:
  "accepted email_accepted \<and> \<not> accepted connection_refused \<and>
   status (verifyEmail net_catch_all ''bob@example.com'' no_options) = ''catch_all'' \<and>
   is_catch_all (verifyEmail net_catch_all ''bob@example.com'' no_options) \<and>
   confidence_score (verifyEmail net_catch_all ''bob@example.com'' no_options) = 60 \<and>
   risk_level (verifyEmail net_catch_all ''bob@example.com'' no_options) = ''medium'' \<and>
   status (verifyEmail net_refused ''bob@example.com'' no_options) = ''valid'' \<and>
   confidence_score (verifyEmail net_refused ''bob@example.com'' no_options) = 90 \<and>
   risk_level (verifyEmail net_refused ''bob@example.com'' no_options) = ''low''"
proof -
  have mx: "resolveMx net_catch_all (toLowerCase ''example.com'') = Some consumer_mx"
           "resolveMx net_refused (toLowerCase ''example.com'') = Some consumer_mx"
    by (simp_all add: net_catch_all_def net_refused_def example_resolveMx)
  have ne: "consumer_mx \<noteq> []"
    by (simp add: consumer_mx_def)
  have probe: "testSMTPConnection net_catch_all n a h = Inr email_accepted" for n a h
    by (simp add: net_catch_all_def example_session accepted_probe)
  have real: "testSMTPConnection net_refused 0 a h = Inr email_accepted" for a h
    by (simp add: net_refused_def example_session accepted_probe)
  have random: "testSMTPConnection net_refused 1 a h = Inr connection_refused"
               "testSMTPConnection net_refused 2 a h = Inr connection_refused" for a h
    by (simp_all add: net_refused_def example_session refused_probe)
  have prov: "detectMailProvider consumer_hosts \<notin>
                {''google_workspace'', ''microsoft365'', ''corporate''}"
    by (simp add: consumer_provider)
  have acc: "connected email_accepted" "accepted email_accepted"
    by (simp_all add: email_accepted_def)
  have ref: "\<not> accepted connection_refused"
    by (simp add: connection_refused_def)
  have skip: "\<not> skipCatchAll no_options"
    by (simp add: no_options_def)
  show ?thesis
    using catch_all_discriminator [OF bob_format bob_split example_not_disposable mx(1) ne
        consumer_sorted probe acc skip prov probe probe]
      catch_all_discriminator [OF bob_format bob_split example_not_disposable mx(2) ne
        consumer_sorted real acc skip prov random]
    by (simp add: acc ref)
qed

text \<open>
  Claim C10. In the catch-all discriminator a synthetic probe that does not connect counts
  as not accepted: when the probe of the address is accepted and at least one of the two
  synthetic probes returns \<open>connected = False\<close>, the result is \<^verbatim>\<open>valid\<close> with score 90 and
  risk \<^verbatim>\<open>low\<close>.
\<close>

theorem synthetic_probe_not_connected:
  assumes "isValidFormat address"
      and "split_char CHR ''@'' address = [localPart, domain]"
      and "\<not> isDisposableDomain (toLowerCase domain)"
      and "resolveMx net (toLowerCase domain) = Some mxRecords" and "mxRecords \<noteq> []"
      and "hosts = map exchange (sort_key priority mxRecords)"
      and "testSMTPConnection net 0 address (hd hosts) = Inr realEmailCheck"
      and "connected realEmailCheck" and "accepted realEmailCheck"
      and "\<not> skipCatchAll opts"
      and "detectMailProvider hosts \<notin> {''google_workspace'', ''microsoft365'', ''corporate''}"
      and "testSMTPConnection net 1 (generateRandomEmail net 0 (toLowerCase domain)) (hd hosts)
             = Inr random1"
      and "testSMTPConnection net 2 (generateRandomEmail net 1 (toLowerCase domain)) (hd hosts)
             = Inr random2"
      and "\<not> connected random1 \<or> \<not> connected random2"
  shows "status (verifyEmail net address opts) = ''valid'' \<and>
         confidence_score (verifyEmail net address opts) = 90 \<and>
         risk_level (verifyEmail net address opts) = ''low'' \<and>
         \<not> is_catch_all (verifyEmail net address opts)"
proof -
  have "\<not> (accepted random1 \<and> accepted random2)"
    using assms(14) testSMTPConnection_sound [OF assms(12)] testSMTPConnection_sound [OF assms(13)]
    by blast
  then show ?thesis
    unfolding discriminator_result [OF assms(1-13)]
    by (simp add: probed_result_def filtered_result_def)
qed

theorem synthetic_probe_not_connected_witness:
  "\<not> connected connection_refused \<and>
   status (verifyEmail net_refused ''bob@example.com'' no_options) = ''valid'' \<and>
   confidence_score (verifyEmail net_refused ''bob@example.com'' no_options) = 90 \<and>
   risk_level (verifyEmail net_refused ''bob@example.com'' no_options) = ''low''"
proof -
  have mx: "resolveMx net_refused (toLowerCase ''example.com'') = Some consumer_mx"
    by (simp add: net_refused_def example_resolveMx)
  have ne: "consumer_mx \<noteq> []"
    by (simp add: consumer_mx_def)
  have real: "testSMTPConnection net_refused 0 a h = Inr email_accepted" for a h
    by (simp add: net_refused_def example_session accepted_probe)
  have random: "testSMTPConnection net_refused 1 a h = Inr connection_refused"
               "testSMTPConnection net_refused 2 a h = Inr connection_refused" for a h
    by (simp_all add: net_refused_def example_session refused_probe)
  have prov: "detectMailProvider consumer_hosts \<notin>
                {''google_workspace'', ''microsoft365'', ''corporate''}"
    by (simp add: consumer_provider)
  have acc: "connected email_accepted" "accepted email_accepted"
    by (simp_all add: email_accepted_def)
  have ref: "\<not> connected connection_refused \<or> \<not> connected connection_refused"
    by (simp add: connection_refused_def)
  have skip: "\<not> skipCatchAll no_options"
    by (simp add: no_options_def)
  show ?thesis
    using synthetic_probe_not_connected [OF bob_format bob_split example_not_disposable mx ne
        consumer_sorted real acc skip prov random ref]
    by (simp add: connection_refused_def)
qed


section \<open>The heuristic scorer\<close>

text \<open>
  Claim C5. On the path that skips the catch-all test, the score is the clamp to 0..100 of
  the sum of the contributions of section 4.6 (\<open>spec_confidence\<close>): 40 for the SMTP stage,
  20 for DNS, 20 for \<^verbatim>\<open>google_workspace\<close> or \<^verbatim>\<open>microsoft365\<close> or 15 for \<^verbatim>\<open>corporate\<close>,
  minus 10 for a role account, minus 10 for a local-part shorter than 3, minus 15 for a
  random token, plus 10 for a human name, minus 5 for a free-email domain. A score of at
  least 75 gives \<^verbatim>\<open>valid\<close> and \<^verbatim>\<open>low\<close>, a score from 50 to 74 gives \<^verbatim>\<open>valid\<close> and
  \<^verbatim>\<open>medium\<close>, a lower score gives \<^verbatim>\<open>unknown\<close> and \<^verbatim>\<open>medium\<close>; the status is never
  \<^verbatim>\<open>invalid\<close>.
\<close>

theorem skip_path_confidence:
  assumes "isValidFormat address"
      and "split_char CHR ''@'' address = [localPart, domain]"
      and "\<not> isDisposableDomain (toLowerCase domain)"
      and "resolveMx net (toLowerCase domain) = Some mxRecords" and "mxRecords \<noteq> []"
      and "hosts = map exchange (sort_key priority mxRecords)"
      and "testSMTPConnection net 0 address (hd hosts) = Inr realEmailCheck"
      and "connected realEmailCheck" and "accepted realEmailCheck"
      and "skipCatchAll opts \<or>
           detectMailProvider hosts \<in> {''google_workspace'', ''microsoft365'', ''corporate''}"
      and "r = verifyEmail net address opts"
  shows "confidence_score r =
           spec_confidence (smtp_check r) (dns_check r) (detectMailProvider hosts)
             (is_role_account r) localPart (is_free_email r) \<and>
         smtp_check r \<and> dns_check r \<and>
         is_role_account r = isRoleAccount localPart \<and>
         is_free_email r = isFreeEmailProvider (toLowerCase domain) \<and>
         (75 \<le> confidence_score r \<longrightarrow> status r = ''valid'' \<and> risk_level r = ''low'') \<and>
         (50 \<le> confidence_score r \<and> confidence_score r < 75 \<longrightarrow>
            status r = ''valid'' \<and> risk_level r = ''medium'') \<and>
         (confidence_score r < 50 \<longrightarrow> status r = ''unknown'' \<and> risk_level r = ''medium'') \<and>
         status r \<noteq> ''invalid''"
proof -
  let ?p = "probed_result address localPart domain hosts"
  have r: "r = heuristic_verdict address ?p (detectMailProvider hosts)"
    unfolding assms(11) by (rule skip_path_result [OF assms(1-10)])
  have l: "localPart_of address = localPart"
    by (simp add: localPart_of_def assms(2))
  have c: "calculateHeuristicConfidence address ?p (detectMailProvider hosts) =
             spec_confidence True True (detectMailProvider hosts) (isRoleAccount localPart)
               localPart (isFreeEmailProvider (toLowerCase domain))"
    by (simp add: calculateHeuristicConfidence_spec l probed_result_def filtered_result_def)
  show ?thesis
    unfolding r heuristic_verdict_def Let_def c
    by (simp add: probed_result_def filtered_result_def)
qed

theorem skip_path_confidence_witness:
  "confidence_score (verifyEmail net_corporate ''bob@example.com'' no_options) = 85 \<and>
   status (verifyEmail net_corporate ''bob@example.com'' no_options) = ''valid'' \<and>
   risk_level (verifyEmail net_corporate ''bob@example.com'' no_options) = ''low''"
proof -
  have mx: "resolveMx net_corporate (toLowerCase ''example.com'') = Some corporate_mx"
    by (simp add: net_corporate_def example_resolveMx)
  have ne: "corporate_mx \<noteq> []"
    by (simp add: corporate_mx_def)
  have probe: "testSMTPConnection net_corporate 0 a h = Inr email_accepted" for a h
    by (simp add: net_corporate_def example_session accepted_probe)
  have prov: "skipCatchAll no_options \<or> detectMailProvider [''mx.example.com''] \<in>
                {''google_workspace'', ''microsoft365'', ''corporate''}"
    by (simp add: corporate_provider)
  have acc: "connected email_accepted" "accepted email_accepted"
    by (simp_all add: email_accepted_def)
  show ?thesis
    using skip_path_confidence [OF bob_format bob_split example_not_disposable mx ne
        corporate_sorted probe acc prov refl]
    by (simp add: corporate_provider bob_no_role example_not_free bob_confidence)
qed


section \<open>The provider policy\<close>

text \<open>
  Claim C6. For an address whose MX records fingerprint as \<^verbatim>\<open>google_workspace\<close>, and the
  same network, a run with \<open>skipCatchAll = False\<close> and a run with \<open>skipCatchAll = True\<close>
  return the same result and perform the same network operations, and in both the only
  operations are the MX query and the connection that probes the address itself: no
  random bytes are drawn and no synthetic address is probed.
\<close>

theorem google_workspace_overrides_flag:
  assumes "split_char CHR ''@'' address = [localPart, domain]"
      and "resolveMx net (toLowerCase domain) = Some mxRecords"
      and "hosts = map exchange (sort_key priority mxRecords)"
      and "detectMailProvider hosts = ''google_workspace''"
  shows "verifyEmail_run net address (opts\<lparr>skipCatchAll := False\<rparr>) =
           verifyEmail_run net address (opts\<lparr>skipCatchAll := True\<rparr>) \<and>
         set (network_ops net address (opts\<lparr>skipCatchAll := False\<rparr>)) \<subseteq>
           {DnsQuery (toLowerCase domain), SmtpConnect (hd hosts) address} \<and>
         set (network_ops net address (opts\<lparr>skipCatchAll := True\<rparr>)) \<subseteq>
           {DnsQuery (toLowerCase domain), SmtpConnect (hd hosts) address}"
proof -
  have g: "detectMailProvider (map exchange (sort_key priority mxRecords)) = ''google_workspace''"
    using assms(3,4) by simp
  have t: "verifyEmail_try net address (opts\<lparr>skipCatchAll := flag\<rparr>) =
             verifyEmail_try net address (opts\<lparr>skipCatchAll := True\<rparr>)" for flag
    using assms(1,2) smtp_stage_google(1) [OF g, of net address flag]
    by (simp add: verifyEmail_try_def Let_def)
  have o: "set (snd (snd (verifyEmail_try net address (opts\<lparr>skipCatchAll := True\<rparr>)))) \<subseteq>
             {DnsQuery (toLowerCase domain), SmtpConnect (hd hosts) address}"
    using assms(1,2)
      smtp_stage_google(2) [OF g, of net address True _ _ "[DnsQuery (toLowerCase domain)]"]
    by (auto simp: verifyEmail_try_def Let_def returns_def assms(3))
  show ?thesis
    using o by (simp add: verifyEmail_ops_of_try verifyEmail_run_def t [of False])
qed

theorem google_workspace_overrides_flag_witness:
  "detectMailProvider [''aspmx.l.google.com''] = ''google_workspace'' \<and>
   verifyEmail_run net_google ''bob@example.com'' (no_options\<lparr>skipCatchAll := False\<rparr>) =
     verifyEmail_run net_google ''bob@example.com'' (no_options\<lparr>skipCatchAll := True\<rparr>) \<and>
   set (network_ops net_google ''bob@example.com'' (no_options\<lparr>skipCatchAll := False\<rparr>)) \<subseteq>
     {DnsQuery ''example.com'', SmtpConnect ''aspmx.l.google.com'' ''bob@example.com''}"
proof -
  have mx: "resolveMx net_google (toLowerCase ''example.com'') = Some google_mx"
    by (simp add: net_google_def example_resolveMx)
  show ?thesis
    using google_workspace_overrides_flag [OF bob_split mx google_sorted
        google_provider, of no_options]
    by (simp add: google_provider example_lower)
qed


section \<open>The domain resolver\<close>

text \<open>
  Claim C8. When a run resolves the MX records of a domain \<open>d\<close> and the resolution fails
  or yields no record, the result is \<^verbatim>\<open>invalid\<close> with the reason
  \<^verbatim>\<open>No MX records found\<close>, \<open>dns_check = False\<close>, score 0 and risk \<^verbatim>\<open>high\<close>. When it yields
  records, \<open>dns_check\<close> is true and \<open>mx_records\<close> is the list of their host names in
  ascending order of priority (a sorted permutation of the records).
\<close>

theorem mx_resolution:
  assumes "DnsQuery d \<in> set (network_ops net address opts)"
      and "r = verifyEmail net address opts"
  shows "(resolveMx net d = None \<or> resolveMx net d = Some [] \<longrightarrow>
            status r = ''invalid'' \<and> reason r = ''No MX records found'' \<and> \<not> dns_check r \<and>
            confidence_score r = 0 \<and> risk_level r = ''high'') \<and>
         (\<forall>mxRecords. resolveMx net d = Some mxRecords \<and> mxRecords \<noteq> [] \<longrightarrow>
            dns_check r \<and>
            mx_records r = map exchange (sort_key priority mxRecords) \<and>
            sorted (map priority (sort_key priority mxRecords)) \<and>
            mset (sort_key priority mxRecords) = mset mxRecords)"
proof -
  obtain r0 where t: "verifyEmail_try net address opts =
           (case resolveMx net d of
              None \<Rightarrow> returns (no_mx r0) [DnsQuery d]
            | Some mxRecords \<Rightarrow>
                if mxRecords = [] then returns (no_mx r0) [DnsQuery d]
                else smtp_stage net address (skipCatchAll opts) r0 d mxRecords [DnsQuery d])"
    using dns_query_performed [OF assms(1)] by blast
  have failed: "resolveMx net d = None \<or> resolveMx net d = Some [] \<Longrightarrow> r = no_mx r0"
    by (auto simp: assms(2) verifyEmail_def verifyEmail_run_def t returns_def)
  have found: "dns_check r \<and> mx_records r = map exchange (sort_key priority mxRecords)"
    if "resolveMx net d = Some mxRecords" "mxRecords \<noteq> []" for mxRecords
  proof -
    have "verifyEmail_try net address opts =
            smtp_stage net address (skipCatchAll opts) r0 d mxRecords [DnsQuery d]"
      using that by (simp add: t)
    then show ?thesis
      using smtp_stage_keeps [of net address "skipCatchAll opts" r0 d mxRecords "[DnsQuery d]"]
      by (cases "smtp_stage net address (skipCatchAll opts) r0 d mxRecords [DnsQuery d]")
         (auto simp: assms(2) verifyEmail_def verifyEmail_run_def catch_error_def
               split: option.splits)
  qed
  show ?thesis
    using failed found by (auto simp: no_mx_def)
qed

theorem mx_resolution_witness:
  "DnsQuery ''example.com'' \<in> set (network_ops net_no_mx ''bob@example.com'' no_options) \<and>
   resolveMx net_no_mx ''example.com'' = None \<and>
   status (verifyEmail net_no_mx ''bob@example.com'' no_options) = ''invalid'' \<and>
   reason (verifyEmail net_no_mx ''bob@example.com'' no_options) = ''No MX records found'' \<and>
   \<not> dns_check (verifyEmail net_no_mx ''bob@example.com'' no_options) \<and>
   confidence_score (verifyEmail net_no_mx ''bob@example.com'' no_options) = 0 \<and>
   risk_level (verifyEmail net_no_mx ''bob@example.com'' no_options) = ''high'' \<and>
   DnsQuery ''example.com'' \<in> set (network_ops net_catch_all ''bob@example.com'' no_options) \<and>
   resolveMx net_catch_all ''example.com'' = Some consumer_mx \<and>
   dns_check (verifyEmail net_catch_all ''bob@example.com'' no_options) \<and>
   mx_records (verifyEmail net_catch_all ''bob@example.com'' no_options) =
     [''mx1.yahoo.example'', ''mx2.yahoo.example'']"
proof -
  have q: "DnsQuery ''example.com'' \<in> set (network_ops net ''bob@example.com'' no_options)"
    for net
    using dns_query_recorded [OF bob_format bob_split example_not_disposable, of net no_options]
    by (simp add: example_lower)
  have none: "resolveMx net_no_mx ''example.com'' = None"
    using example_resolveMx [of None] by (simp add: net_no_mx_def example_lower)
  have some: "resolveMx net_catch_all ''example.com'' = Some consumer_mx"
    using example_resolveMx [of "Some consumer_mx"] by (simp add: net_catch_all_def example_lower)
  have ne: "consumer_mx \<noteq> []"
    by (simp add: consumer_mx_def)
  show ?thesis
    using mx_resolution [OF q [of net_no_mx] refl] mx_resolution [OF q [of net_catch_all] refl]
          q none some ne consumer_sorted
    by (simp add: consumer_hosts_def)
qed


section \<open>Invariants of the result\<close>

lemma catch_all_test_inv:
  "\<not> is_catch_all r \<Longrightarrow> run_inv (catch_all_test net r dl h ops)"
  by (cases "random_probes net dl h 0 [] ops")
     (auto simp: catch_all_test_def run_inv_def result_inv_def returns_def throws_def Let_def
           split: sum.splits)

lemma clamp_range: "0 \<le> max 0 (min 100 x) \<and> max 0 (min 100 x) \<le> (100::int)"
  by simp

lemma confidence_range:
  "0 \<le> calculateHeuristicConfidence a r p \<and> calculateHeuristicConfidence a r p \<le> 100"
  unfolding calculateHeuristicConfidence_def Let_def by (rule clamp_range)

lemma heuristic_verdict_inv:
  "\<not> is_catch_all r \<Longrightarrow> result_inv (heuristic_verdict a r p)"
  using confidence_range [of a r p]
  by (simp add: heuristic_verdict_def result_inv_def Let_def)


lemma smtp_stage_inv:
  assumes "\<not> is_catch_all r"
  shows "run_inv (smtp_stage net a skip r dl recs ops)"
proof (cases "testSMTPConnection net 0 a (hd (map exchange (sort_key priority recs)))")
  case (Inl message)
  with assms show ?thesis
    by (simp add: smtp_stage_def Let_def run_inv_def throws_def)
next
  case (Inr realEmailCheck)
  let ?r1 = "r\<lparr>dns_check := True, mx_records := map exchange (sort_key priority recs)\<rparr>"
  let ?r2 = "?r1\<lparr>smtp_check := True\<rparr>"
  have c: "\<not> is_catch_all ?r2" using assms by simp
  have h: "result_inv (heuristic_verdict a ?r2 p)" for p
    using c by (rule heuristic_verdict_inv)
  have t: "run_inv (catch_all_test net ?r2 dl h ops')" for h ops'
    using c by (rule catch_all_test_inv)
  show ?thesis
    using Inr assms h t
    by (simp add: smtp_stage_def Let_def run_inv_def result_inv_def returns_def)
qed

lemma run_inv_returns: "run_inv (returns r ops) = result_inv r"
  by (simp add: run_inv_def returns_def)

lemma run_inv_throws: "run_inv (throws m r ops) = (\<not> is_catch_all r)"
  by (simp add: run_inv_def throws_def)

lemma verifyEmail_try_inv: "run_inv (verifyEmail_try net a opts)"
  unfolding verifyEmail_try_def Let_def
  by (simp add: run_inv_returns run_inv_throws smtp_stage_inv result_inv_def no_mx_def
                initial_result_def split: list.splits option.splits)


text \<open>
  Claim C7. For every address, every option record and every network, the result of
  \<^verbatim>\<open>verifyEmail\<close> has a \<open>confidence_score\<close> between 0 and 100, and \<open>is_catch_all\<close> is true
  exactly when \<open>status\<close> is \<^verbatim>\<open>catch_all\<close>.
\<close>

theorem verifyEmail_invariants:
  "0 \<le> confidence_score (verifyEmail net a opts) \<and>
   confidence_score (verifyEmail net a opts) \<le> 100 \<and>
   (is_catch_all (verifyEmail net a opts) \<longleftrightarrow> status (verifyEmail net a opts) = ''catch_all'')"
  using verifyEmail_try_inv [of net a opts]
  by (cases "verifyEmail_try net a opts")
     (auto simp: verifyEmail_def verifyEmail_run_def run_inv_def result_inv_def catch_error_def
           split: option.splits)


section \<open>The catch handler\<close>




end
